theory Spec2Isabelle
  imports Complex_Main "HOL-Library.Log_Nat"
begin

section \<open>JavaScript numbers\<close>

text \<open>
  The calculator works on JavaScript numbers, which are IEEE 754 double precision
  values. A number is modelled as a finite real (\<open>Num\<close>), one of the two infinities, or
  \<open>NaN\<close>, the value that \<^verbatim>\<open>parseFloat\<close> and \<^verbatim>\<open>parseInt\<close> give for a text that does not
  start with a number (an empty field, for instance). Every arithmetic operation
  rounds its exact result to the nearest double (\<open>fl\<close> below). The two zeros of IEEE 754
  are one value here: they compare equal and give the same result in every operation
  that the calculator uses.
\<close>

datatype jsnum = Num real | PosInf | NegInf | NaN

subsection \<open>Rounding a real to the nearest double\<close>

text \<open>The integer nearest to \<open>x\<close>; of two equally near integers, the even one.\<close>

definition rne :: "real \<Rightarrow> int" where
  "rne x =
     (let f = \<lfloor>x\<rfloor>; d = x - of_int f in
      if d < 1 / 2 then f
      else if 1 / 2 < d then f + 1
      else if even f then f else f + 1)"

text \<open>
  The reciprocal of the smallest normal double, \<open>2^-1022\<close>. For \<open>x \<ge> 0\<close>, \<open>ex x\<close> is the
  binary exponent of \<open>x\<close> counted from \<open>-1022\<close> (it is 0 on the subnormal range), and the
  doubles next to \<open>x\<close> are the multiples of \<open>2 ^ ex x / 2 ^ 1074\<close>; \<open>man x\<close> is \<open>x\<close> in this
  unit, a number below \<open>2^53\<close>, and \<open>rnd x\<close> the multiple nearest to \<open>x\<close>, with ties going
  to the even multiple.
\<close>

definition bias :: real where
  "bias = 2 ^ 1022"

definition ex :: "real \<Rightarrow> nat" where
  "ex x = nat (bitlen \<lfloor>x * bias\<rfloor> - 1)"

definition man :: "real \<Rightarrow> real" where
  "man x = x * bias * 2 ^ 52 / 2 ^ ex x"

definition rnd :: "real \<Rightarrow> real" where
  "rnd x = of_int (rne (man x)) * 2 ^ ex x / (bias * 2 ^ 52)"

text \<open>A result that reaches \<open>2^1024\<close> overflows to infinity.\<close>

definition fl_pos :: "real \<Rightarrow> jsnum" where
  "fl_pos x = (if 4 * bias \<le> rnd x then PosInf else Num (rnd x))"

fun jneg :: "jsnum \<Rightarrow> jsnum" where
  "jneg (Num a) = Num (- a)"
| "jneg PosInf = NegInf"
| "jneg NegInf = PosInf"
| "jneg NaN = NaN"

definition fl :: "real \<Rightarrow> jsnum" where
  "fl x = (if x < 0 then jneg (fl_pos (- x)) else fl_pos x)"

text \<open>The reals that are doubles.\<close>

definition is_double :: "real \<Rightarrow> bool" where
  "is_double x \<longleftrightarrow> fl x = Num x"

subsection \<open>Comparisons and arithmetic\<close>

text \<open>Every comparison with a \<open>NaN\<close> operand is false.\<close>

fun jlt :: "jsnum \<Rightarrow> jsnum \<Rightarrow> bool" where
  "jlt (Num a) (Num b) = (a < b)"
| "jlt NaN _ = False"
| "jlt _ NaN = False"
| "jlt PosInf _ = False"
| "jlt _ PosInf = True"
| "jlt NegInf NegInf = False"
| "jlt NegInf _ = True"
| "jlt _ NegInf = False"

definition jgt :: "jsnum \<Rightarrow> jsnum \<Rightarrow> bool" where
  "jgt x y = jlt y x"

fun jle :: "jsnum \<Rightarrow> jsnum \<Rightarrow> bool" where
  "jle (Num a) (Num b) = (a \<le> b)"
| "jle NaN _ = False"
| "jle _ NaN = False"
| "jle NegInf _ = True"
| "jle _ PosInf = True"
| "jle _ _ = False"

text \<open>
  Sum, difference and product: the exact result rounded to a double; the IEEE rules
  for the infinities; \<open>NaN\<close> for \<open>Infinity - Infinity\<close>, \<open>0 * Infinity\<close> and for a \<open>NaN\<close>
  operand.
\<close>

fun jadd :: "jsnum \<Rightarrow> jsnum \<Rightarrow> jsnum" where
  "jadd (Num a) (Num b) = fl (a + b)"
| "jadd NaN _ = NaN"
| "jadd _ NaN = NaN"
| "jadd PosInf NegInf = NaN"
| "jadd NegInf PosInf = NaN"
| "jadd PosInf _ = PosInf"
| "jadd _ PosInf = PosInf"
| "jadd NegInf _ = NegInf"
| "jadd _ NegInf = NegInf"

definition jsub :: "jsnum \<Rightarrow> jsnum \<Rightarrow> jsnum" where
  "jsub x y = jadd x (jneg y)"

fun jsign :: "jsnum \<Rightarrow> real" where
  "jsign (Num a) = sgn a"
| "jsign PosInf = 1"
| "jsign NegInf = - 1"
| "jsign NaN = 0"

fun jmul :: "jsnum \<Rightarrow> jsnum \<Rightarrow> jsnum" where
  "jmul (Num a) (Num b) = fl (a * b)"
| "jmul NaN _ = NaN"
| "jmul _ NaN = NaN"
| "jmul x y =
     (if 0 < jsign x * jsign y then PosInf
      else if jsign x * jsign y < 0 then NegInf
      else NaN)"

text \<open>
  Division: the source divides by the literals 100 and 12 only, so the divisor is a
  non-zero real here.
\<close>

fun jdiv :: "jsnum \<Rightarrow> real \<Rightarrow> jsnum" where
  "jdiv (Num a) d = fl (a / d)"
| "jdiv PosInf d = (if 0 < d then PosInf else NegInf)"
| "jdiv NegInf d = (if 0 < d then NegInf else PosInf)"
| "jdiv NaN d = NaN"

fun Math_max :: "jsnum \<Rightarrow> jsnum \<Rightarrow> jsnum" where
  "Math_max (Num a) (Num b) = Num (max a b)"
| "Math_max NaN _ = NaN"
| "Math_max _ NaN = NaN"
| "Math_max PosInf _ = PosInf"
| "Math_max _ PosInf = PosInf"
| "Math_max NegInf y = y"
| "Math_max x NegInf = x"

fun Math_min :: "jsnum \<Rightarrow> jsnum \<Rightarrow> jsnum" where
  "Math_min (Num a) (Num b) = Num (min a b)"
| "Math_min NaN _ = NaN"
| "Math_min _ NaN = NaN"
| "Math_min NegInf _ = NegInf"
| "Math_min _ NegInf = NegInf"
| "Math_min PosInf y = y"
| "Math_min x PosInf = x"

text \<open>
  \<^verbatim>\<open>Math.round(x)\<close>: the integer nearest to \<open>x\<close>, the larger one when \<open>x\<close> lies half-way.
\<close>

definition Math_round :: "real \<Rightarrow> real" where
  "Math_round x = of_int \<lfloor>x + 1 / 2\<rfloor>"

text \<open>
  \<^verbatim>\<open>x.toFixed(2)\<close> works on the exact value of the double \<open>x\<close>: it writes the sign apart
  and, for the absolute value, picks the integer \<open>n\<close> with \<open>n / 100\<close> nearest to it, the
  larger \<open>n\<close> of two equally near ones. \<open>toFixed2 x\<close> is the number that the digits
  denote.
\<close>

definition toFixed2 :: "real \<Rightarrow> real" where
  "toFixed2 x =
     (if x < 0 then - (of_int \<lfloor>(- x) * 100 + 1 / 2\<rfloor> / 100)
      else of_int \<lfloor>x * 100 + 1 / 2\<rfloor> / 100)"

text \<open>
  \<^verbatim>\<open>parseFloat(x.toFixed(2))\<close>: \<^verbatim>\<open>parseFloat\<close> gives the double nearest to the number
  that the digits denote. From \<open>10^21\<close> on \<^verbatim>\<open>toFixed\<close> prints the number as
  \<^verbatim>\<open>String(x)\<close> does, which \<^verbatim>\<open>parseFloat\<close> reads back as \<open>x\<close>; the infinities print as
  \<^verbatim>\<open>"Infinity"\<close> and \<^verbatim>\<open>"-Infinity"\<close>, \<open>NaN\<close> as \<^verbatim>\<open>"NaN"\<close>, and are read back as
  themselves.
\<close>

fun parseFloat_toFixed2 :: "jsnum \<Rightarrow> jsnum" where
  "parseFloat_toFixed2 (Num x) = (if 10 ^ 21 \<le> \<bar>x\<bar> then Num x else fl (toFixed2 x))"
| "parseFloat_toFixed2 PosInf = PosInf"
| "parseFloat_toFixed2 NegInf = NegInf"
| "parseFloat_toFixed2 NaN = NaN"

section \<open>Input validation\<close>

text \<open>
  The messages of the source, written with the UTF-8 bytes of their accented letters.
\<close>

definition msg_sommeInitiale :: string where
  "msg_sommeInitiale = ''Le montant doit '' @ [CHR 0xC3, CHR 0xAA] @ ''tre positif''"

definition msg_mensualite :: string where
  "msg_mensualite = ''Le versement doit '' @ [CHR 0xC3, CHR 0xAA] @ ''tre positif''"

definition msg_tauxAnnuel :: string where
  "msg_tauxAnnuel = ''Le taux doit '' @ [CHR 0xC3, CHR 0xAA] @ ''tre entre 0 et 100%''"

definition msg_nombreAnnees :: string where
  "msg_nombreAnnees =
     ''La dur'' @ [CHR 0xC3, CHR 0xA9] @ ''e doit '' @ [CHR 0xC3, CHR 0xAA] @ ''tre entre 1 et 50 ans''"

text \<open>
  The object \<^verbatim>\<open>{ value, errors }\<close> that \<^verbatim>\<open>validateInput\<close> returns. The errors object is a
  map from field names to messages.
\<close>

record validation =
  res_value :: jsnum
  res_errors :: "string \<rightharpoonup> string"

text \<open>
  \<^verbatim>\<open>validateInput(name, value)\<close> of \<^verbatim>\<open>investment-calculator.js\<close>. The component's
  \<^verbatim>\<open>errors\<close> state, which the function copies into \<^verbatim>\<open>newErrors\<close>, is the first argument.
  The value is a number: the four numeric fields receive the result of \<^verbatim>\<open>parseFloat\<close>
  or \<^verbatim>\<open>parseInt\<close>.
\<close>

definition validateInput :: "(string \<rightharpoonup> string) \<Rightarrow> string \<Rightarrow> jsnum \<Rightarrow> validation" where
  "validateInput errors name v =
     (let newErrors = errors in
      if name = ''sommeInitiale'' then
        \<lparr>res_value = Math_max (Num 0) v,
         res_errors = (if jlt v (Num 0) then newErrors(''sommeInitiale'' \<mapsto> msg_sommeInitiale)
                       else newErrors(''sommeInitiale'' := None))\<rparr>
      else if name = ''mensualite'' then
        \<lparr>res_value = Math_max (Num 0) v,
         res_errors = (if jlt v (Num 0) then newErrors(''mensualite'' \<mapsto> msg_mensualite)
                       else newErrors(''mensualite'' := None))\<rparr>
      else if name = ''tauxAnnuel'' then
        \<lparr>res_value = Math_min (Num 100) (Math_max (Num 0) v),
         res_errors = (if jlt v (Num 0) \<or> jgt v (Num 100)
                       then newErrors(''tauxAnnuel'' \<mapsto> msg_tauxAnnuel)
                       else newErrors(''tauxAnnuel'' := None))\<rparr>
      else if name = ''nombreAnnees'' then
        \<lparr>res_value = Math_min (Num 50) (Math_max (Num 1) v),
         res_errors = (if jlt v (Num 1) \<or> jgt v (Num 50)
                       then newErrors(''nombreAnnees'' \<mapsto> msg_nombreAnnees)
                       else newErrors(''nombreAnnees'' := None))\<rparr>
      else \<lparr>res_value = v, res_errors = newErrors\<rparr>)"

section \<open>Income brackets and the recommendation\<close>

text \<open>
  An entry of \<^verbatim>\<open>TRANCHES\<close>. The fields \<^verbatim>\<open>id\<close>, \<^verbatim>\<open>label\<close>, \<^verbatim>\<open>min\<close> and \<^verbatim>\<open>max\<close> carry a
  prefix, since \<open>id\<close>, \<open>min\<close> and \<open>max\<close> are constants of HOL.
  The table is a constant, and its numbers are written as the decimal literals of the
  source; on its five entries the products and percentages that the code computes in
  doubles are the same whole numbers (50, 300, 750, 1400, 13500 and 5, 10, 15, 20, 25).
\<close>

record tranche =
  tranche_id :: string
  tranche_label :: string
  tranche_min :: real
  tranche_max :: real
  tauxEpargneRecommande :: real

definition euro :: string where
  "euro = [CHR 0xE2, CHR 0x82, CHR 0xAC]"

definition TRANCHES :: "tranche list" where
  "TRANCHES =
    [\<lparr>tranche_id = ''moins-2000'', tranche_label = ''Moins de 2000'' @ euro,
      tranche_min = 0, tranche_max = 2000, tauxEpargneRecommande = 5 / 100\<rparr>,
     \<lparr>tranche_id = ''2000-4000'', tranche_label = ''Entre 2000'' @ euro @ '' et 4000'' @ euro,
      tranche_min = 2000, tranche_max = 4000, tauxEpargneRecommande = 10 / 100\<rparr>,
     \<lparr>tranche_id = ''4000-6000'', tranche_label = ''Entre 4000'' @ euro @ '' et 6000'' @ euro,
      tranche_min = 4000, tranche_max = 6000, tauxEpargneRecommande = 15 / 100\<rparr>,
     \<lparr>tranche_id = ''6000-8000'', tranche_label = ''Entre 6000'' @ euro @ '' et 8000'' @ euro,
      tranche_min = 6000, tranche_max = 8000, tauxEpargneRecommande = 20 / 100\<rparr>,
     \<lparr>tranche_id = ''plus-8000'', tranche_label = ''Plus de 8000'' @ euro,
      tranche_min = 8000, tranche_max = 100000, tauxEpargneRecommande = 25 / 100\<rparr>]"

record recommandation_t =
  montantRecommande :: real
  pourcentageRevenu :: real

text \<open>
  \<^verbatim>\<open>calculateRecommendation(trancheId)\<close>, the same computation in both source files.
  \<^verbatim>\<open>TRANCHES.find\<close> gives the first entry with the id, or \<^verbatim>\<open>undefined\<close>; the warning
  written to the console for an unknown id is not part of the returned value. Nothing
  in the body can throw, so the \<^verbatim>\<open>catch\<close> branch of the newer file is never taken.
\<close>

definition calculateRecommendation :: "string \<Rightarrow> recommandation_t" where
  "calculateRecommendation trancheId =
     (case find (\<lambda>t. tranche_id t = trancheId) TRANCHES of
        None \<Rightarrow> \<lparr>montantRecommande = 0, pourcentageRevenu = 0\<rparr>
      | Some tr \<Rightarrow>
          (let revenuMoyen = (tranche_min tr + tranche_max tr) / 2 in
           \<lparr>montantRecommande = Math_round (revenuMoyen * tauxEpargneRecommande tr),
            pourcentageRevenu = tauxEpargneRecommande tr * 100\<rparr>))"

section \<open>The investment simulation\<close>

text \<open>The component's \<^verbatim>\<open>inputs\<close> state.\<close>

record inputs =
  sommeInitiale :: jsnum
  mensualite :: jsnum
  tauxAnnuel :: jsnum
  nombreAnnees :: jsnum
  trancheRevenu :: string

text \<open>An element of \<^verbatim>\<open>graphData\<close>: \<^verbatim>\<open>{ mois, total, investi }\<close>.\<close>

record point =
  mois :: jsnum
  total :: jsnum
  investi :: jsnum

text \<open>The object that \<^verbatim>\<open>calculateInvestment\<close> passes to \<^verbatim>\<open>setResults\<close>.\<close>

record results =
  montantTotal :: jsnum
  montantInvesti :: jsnum
  gains :: jsnum
  graphData :: "point list"
  recommandation :: recommandation_t

text \<open>
  The loop \<^verbatim>\<open>for (let mois = 1; mois <= nombreMois; mois++)\<close>: \<open>m\<close> is the counter
  \<^verbatim>\<open>mois\<close>, a number like the others, \<open>montant\<close> the running \<^verbatim>\<open>montantTotal\<close> and \<open>pts\<close>
  the array \<^verbatim>\<open>graphData\<close> so far. The condition is false when \<^verbatim>\<open>nombreMois\<close> is \<open>NaN\<close>.
  The loop does not end when \<^verbatim>\<open>nombreMois\<close> is infinite or so large that the counter
  stops growing; the value is \<open>None\<close> then.
\<close>

partial_function (option) investLoop ::
  "inputs \<Rightarrow> jsnum \<Rightarrow> jsnum \<Rightarrow> jsnum \<Rightarrow> jsnum \<Rightarrow> point list \<Rightarrow> (jsnum \<times> point list) option" where
  "investLoop inp nombreMois tauxMensuel m montant pts =
     (if jle m nombreMois then
        investLoop inp nombreMois tauxMensuel (jadd m (Num 1))
          (jmul (jadd montant (mensualite inp)) (jadd (Num 1) tauxMensuel))
          (pts @ [\<lparr>mois = m,
                   total = parseFloat_toFixed2
                             (jmul (jadd montant (mensualite inp)) (jadd (Num 1) tauxMensuel)),
                   investi = jadd (sommeInitiale inp) (jmul (mensualite inp) m)\<rparr>])
      else Some (montant, pts))"

text \<open>
  \<^verbatim>\<open>calculateInvestment\<close>, the same computation in both source files; the value is the
  object given to \<^verbatim>\<open>setResults\<close>, or \<open>None\<close> when the loop does not end. The newer file
  delays the call by 300 ms (\<^verbatim>\<open>debounce\<close>) and wraps the body in \<^verbatim>\<open>try\<close>; no statement
  of the body throws on numbers.
\<close>

definition calculateInvestment :: "inputs \<Rightarrow> results option" where
  "calculateInvestment inp =
     (let nombreMois = jmul (nombreAnnees inp) (Num 12);
          tauxMensuel = jdiv (jdiv (tauxAnnuel inp) 100) 12;
          montant0 = sommeInitiale inp;
          pts0 = [\<lparr>mois = Num 0, total = montant0, investi = montant0\<rparr>]
      in case investLoop inp nombreMois tauxMensuel (Num 1) montant0 pts0 of
           None \<Rightarrow> None
         | Some (montant, pts) \<Rightarrow>
             (let investi_total = jadd (sommeInitiale inp) (jmul (mensualite inp) nombreMois);
                  gain = jsub montant investi_total;
                  reco = calculateRecommendation (trancheRevenu inp)
              in Some \<lparr>montantTotal = parseFloat_toFixed2 montant,
                       montantInvesti = investi_total,
                       gains = parseFloat_toFixed2 gain,
                       graphData = pts,
                       recommandation = reco\<rparr>))"

text \<open>
  Validated parameters, as the data model of the specification has them: a capital
  \<open>a\<close> and a monthly contribution \<open>c\<close> that are not negative, a rate \<open>r\<close> between 0 and
  100 and a whole number of years \<open>y\<close> between 1 and 50. The three amounts are
  JavaScript numbers, that is, doubles.
\<close>

definition validated :: "real \<Rightarrow> real \<Rightarrow> real \<Rightarrow> nat \<Rightarrow> bool" where
  "validated a c r y \<longleftrightarrow>
     is_double a \<and> is_double c \<and> is_double r \<and>
     0 \<le> a \<and> 0 \<le> c \<and> 0 \<le> r \<and> r \<le> 100 \<and> 1 \<le> y \<and> y \<le> 50"

definition params :: "real \<Rightarrow> real \<Rightarrow> real \<Rightarrow> nat \<Rightarrow> string \<Rightarrow> inputs" where
  "params a c r y b =
     \<lparr>sommeInitiale = Num a, mensualite = Num c, tauxAnnuel = Num r,
      nombreAnnees = Num (of_nat y), trancheRevenu = b\<rparr>"

text \<open>
  The recurrence of the specification, written from its words: \<open>total_0\<close> is the initial
  capital and \<open>total_m = (total_(m-1) + monthlyContribution) * (1 + annualRatePercent/100/12)\<close>,
  the accumulation being done in floating point (each operation gives a double).
\<close>

primrec total_rec :: "real \<Rightarrow> real \<Rightarrow> real \<Rightarrow> nat \<Rightarrow> jsnum" where
  "total_rec a c r 0 = Num a"
| "total_rec a c r (Suc m) =
     jmul (jadd (total_rec a c r m) (Num c)) (jadd (Num 1) (jdiv (jdiv (Num r) 100) 12))"

text \<open>
  The values that a balance takes on validated parameters: a double that is not
  negative, or the positive infinity after an overflow.
\<close>

definition nonneg_num :: "jsnum \<Rightarrow> bool" where
  "nonneg_num t =
     (case t of Num x \<Rightarrow> 0 \<le> x \<and> is_double x | PosInf \<Rightarrow> True
      | NegInf \<Rightarrow> False | NaN \<Rightarrow> False)"

section \<open>Properties of the rounding to doubles\<close>

subsection \<open>Rounding to an integer\<close>

lemma rne_of_int [simp]: "rne (of_int k) = k"
  by (simp add: rne_def)

lemma rne_upper: "of_int (rne x) \<le> x + 1 / 2"
  unfolding rne_def Let_def by (auto; linarith)

lemma rne_lower: "x - 1 / 2 \<le> of_int (rne x)"
  unfolding rne_def Let_def by (auto; linarith)

lemma rne_mono:
  assumes "a \<le> b"
  shows "rne a \<le> rne b"
proof (rule ccontr)
  assume "\<not> rne a \<le> rne b"
  then have "rne b + 1 \<le> rne a" by simp
  then have "(of_int (rne b) :: real) + 1 \<le> of_int (rne a)"
    by (metis of_int_1 of_int_add of_int_le_iff)
  with rne_upper[of a] rne_lower[of b] assms have "a = b" by linarith
  with \<open>\<not> rne a \<le> rne b\<close> show False by simp
qed

lemma rne_nonneg: "0 \<le> x \<Longrightarrow> 0 \<le> rne x"
  using rne_mono[of 0 x] rne_of_int[of 0] by simp

subsection \<open>The exponent\<close>

lemma bias_pos [simp]: "0 < bias"
  by (simp add: bias_def)

lemma bias_nonneg [simp]: "0 \<le> bias"
  by (simp add: bias_def)

lemma bias_neq0 [simp]: "bias \<noteq> 0"
  by (simp add: bias_def)

lemma real_of_int_pow2: "(of_int (2 ^ n) :: real) = 2 ^ n"
  by simp

lemma ex_upper:
  assumes "0 \<le> x"
  shows "x * bias < 2 ^ Suc (ex x)"
proof -
  let ?k = "\<lfloor>x * bias\<rfloor>"
  have k0: "0 \<le> ?k" using assms by simp
  show ?thesis
  proof (cases "?k = 0")
    case True
    then have "x * bias < 1" by (metis floor_less_one zero_less_one)
    also have "(1::real) \<le> 2 ^ Suc (ex x)" by (rule one_le_power) simp
    finally show ?thesis .
  next
    case False
    with k0 have pos: "0 < ?k" by linarith
    then have b: "1 \<le> bitlen ?k" by (simp add: bitlen_alt_def)
    then have n: "nat (bitlen ?k) = Suc (ex x)" by (simp add: ex_def)
    from bitlen_bounds[OF pos] have "?k < 2 ^ nat (bitlen ?k)" by simp
    then have "?k + 1 \<le> 2 ^ Suc (ex x)" unfolding n by simp
    then have "(of_int (?k + 1) :: real) \<le> of_int (2 ^ Suc (ex x))"
      by (simp only: of_int_le_iff)
    then have "(of_int ?k :: real) + 1 \<le> 2 ^ Suc (ex x)"
      by simp
    moreover have "x * bias < of_int ?k + 1" by linarith
    ultimately show ?thesis by linarith
  qed
qed

lemma ex_lower:
  assumes "0 < ex x"
  shows "2 ^ ex x \<le> x * bias"
proof -
  let ?k = "\<lfloor>x * bias\<rfloor>"
  from assms have b: "1 < bitlen ?k" by (simp add: ex_def)
  then have pos: "0 < ?k" by (auto simp: bitlen_alt_def split: if_splits)
  from bitlen_bounds[OF pos] have "2 ^ nat (bitlen ?k - 1) \<le> ?k" by simp
  then have "2 ^ ex x \<le> ?k" by (simp add: ex_def)
  then have "(of_int (2 ^ ex x) :: real) \<le> of_int ?k"
    by (simp only: of_int_le_iff)
  then have "(2::real) ^ ex x \<le> of_int ?k" by simp
  also have "\<dots> \<le> x * bias" by simp
  finally show ?thesis .
qed

lemma ex_mono: "x \<le> y \<Longrightarrow> ex x \<le> ex y"
proof -
  assume "x \<le> y"
  then have "\<lfloor>x * bias\<rfloor> \<le> \<lfloor>y * bias\<rfloor>" by (simp add: floor_mono)
  then have "bitlen \<lfloor>x * bias\<rfloor> \<le> bitlen \<lfloor>y * bias\<rfloor>"
    by (simp add: bitlen_def floorlog_mono nat_mono)
  then show ?thesis by (simp add: ex_def)
qed

lemma ex_le:
  assumes "x * bias < 2 ^ Suc e"
  shows "ex x \<le> e"
proof -
  let ?k = "\<lfloor>x * bias\<rfloor>"
  have "of_int ?k \<le> x * bias" by (rule of_int_floor_le)
  from this assms have "(of_int ?k :: real) < 2 ^ Suc e" by (rule le_less_trans)
  then have "(of_int ?k :: real) < of_int (2 ^ Suc e)" by (simp only: real_of_int_pow2)
  then have "?k < 2 ^ Suc e"
    by (simp only: of_int_less_iff)
  then have "bitlen ?k \<le> int (Suc e)"
    by (simp only: bitlen_le_iff_power nat_int of_nat_0_le_iff simp_thms)
  then show ?thesis by (simp add: ex_def)
qed

lemma ex_ge:
  assumes "2 ^ e \<le> x * bias"
  shows "e \<le> ex x"
proof -
  let ?k = "\<lfloor>x * bias\<rfloor>"
  have "(of_int (2 ^ e) :: real) \<le> x * bias" using assms by simp
  then have "2 ^ e \<le> ?k" by (simp only: le_floor_iff)
  moreover have "nat (int e + 1) - 1 = e" by simp
  ultimately have "int e + 1 \<le> bitlen ?k"
    by (simp only: bitlen_ge_iff_power simp_thms)
  then show ?thesis by (simp add: ex_def)
qed

lemma ex_eqI: "2 ^ e \<le> x * bias \<Longrightarrow> x * bias < 2 ^ Suc e \<Longrightarrow> ex x = e"
  by (simp add: ex_le ex_ge le_antisym)

subsection \<open>The scaled value\<close>

lemma man_less:
  assumes "0 \<le> x"
  shows "man x < 2 ^ 53"
proof -
  have "x * bias * 2 ^ 52 < 2 ^ Suc (ex x) * 2 ^ 52"
    using ex_upper[OF assms] by (intro mult_strict_right_mono) simp_all
  also have "\<dots> = 2 ^ 53 * 2 ^ ex x" by simp
  finally have "x * bias * 2 ^ 52 / 2 ^ ex x < 2 ^ 53"
    by (simp add: divide_less_eq del: power_numeral)
  then show ?thesis by (simp add: man_def)
qed

lemma man_ge:
  assumes "0 < ex x"
  shows "2 ^ 52 \<le> man x"
proof -
  have "2 ^ ex x * 2 ^ 52 \<le> x * bias * 2 ^ 52"
    using ex_lower[OF assms] by (intro mult_right_mono) simp_all
  then have "2 ^ 52 * 2 ^ ex x \<le> x * bias * 2 ^ 52"
    by (simp only: mult.commute)
  then have "2 ^ 52 \<le> x * bias * 2 ^ 52 / 2 ^ ex x"
    by (simp add: le_divide_eq del: power_numeral)
  then show ?thesis by (simp add: man_def)
qed

lemma rne_man_le:
  assumes "0 \<le> x"
  shows "rne (man x) \<le> 2 ^ 53"
proof -
  have "rne (man x) \<le> rne (of_int (2 ^ 53))"
    using man_less[OF assms] by (intro rne_mono) simp
  then show ?thesis by (simp only: rne_of_int)
qed

lemma rne_man_ge:
  assumes "0 < ex x"
  shows "2 ^ 52 \<le> rne (man x)"
proof -
  have "rne (of_int (2 ^ 52)) \<le> rne (man x)"
    using man_ge[OF assms] by (intro rne_mono) simp
  then show ?thesis by (simp only: rne_of_int)
qed

lemma man_nonneg: "0 \<le> x \<Longrightarrow> 0 \<le> man x"
  unfolding man_def by (intro divide_nonneg_nonneg mult_nonneg_nonneg) simp_all

subsection \<open>The rounded value\<close>

lemma rnd_nonneg: "0 \<le> x \<Longrightarrow> 0 \<le> rnd x"
  using rne_nonneg[OF man_nonneg, of x] by (simp add: rnd_def)

lemma rnd_exact:
  assumes "man x = of_int j"
  shows "rnd x = x"
proof -
  have "rnd x = man x * 2 ^ ex x / (bias * 2 ^ 52)"
    by (simp add: rnd_def assms)
  also have "\<dots> = x"
    by (simp add: man_def)
  finally show ?thesis .
qed

lemma rnd_mono:
  assumes "0 \<le> x" "x \<le> y"
  shows "rnd x \<le> rnd y"
proof (cases "ex x = ex y")
  case True
  have "man x \<le> man y"
    using assms(2) by (simp add: man_def True divide_right_mono)
  then have "rne (man x) \<le> rne (man y)" by (rule rne_mono)
  then have "(of_int (rne (man x)) :: real) \<le> of_int (rne (man y))" by simp
  then show ?thesis
    by (simp add: rnd_def True divide_right_mono mult_right_mono)
next
  case False
  with ex_mono[OF assms(2)] have lt: "Suc (ex x) \<le> ex y" by simp
  then have "0 < ex y" by simp
  then have "2 ^ 52 \<le> rne (man y)" by (rule rne_man_ge)
  then have "(of_int (2 ^ 52) :: real) \<le> of_int (rne (man y))"
    by (simp only: of_int_le_iff)
  then have ylow: "(2::real) ^ 52 * 2 ^ ex y \<le> of_int (rne (man y)) * 2 ^ ex y"
    by (simp del: power_numeral)
  have "rne (man x) \<le> 2 ^ 53" using assms(1) by (rule rne_man_le)
  then have "(of_int (rne (man x)) :: real) \<le> of_int (2 ^ 53)"
    by (simp only: of_int_le_iff)
  then have "(of_int (rne (man x)) :: real) * 2 ^ ex x \<le> 2 ^ 53 * 2 ^ ex x"
    by (simp del: power_numeral)
  also have "\<dots> = 2 ^ 52 * 2 ^ Suc (ex x)" by simp
  also have "\<dots> \<le> 2 ^ 52 * 2 ^ ex y"
    using lt by (simp add: power_increasing del: power_numeral power_Suc)
  also note ylow
  finally show ?thesis
    by (simp add: rnd_def divide_right_mono)
qed


lemma rnd_le_pow:
  assumes "0 \<le> x"
  shows "rnd x * (bias * 2 ^ 52) \<le> 2 ^ 53 * 2 ^ ex x"
proof -
  have "rne (man x) \<le> 2 ^ 53" using assms by (rule rne_man_le)
  then have "(of_int (rne (man x)) :: real) \<le> of_int (2 ^ 53)"
    by (simp only: of_int_le_iff)
  then have "(of_int (rne (man x)) :: real) * 2 ^ ex x \<le> 2 ^ 53 * 2 ^ ex x"
    by (simp del: power_numeral)
  then show ?thesis by (simp add: rnd_def del: power_numeral)
qed

lemma rnd_idem:
  assumes "0 \<le> x"
  shows "rnd (rnd x) = rnd x"
proof -
  let ?n = "rne (man x)"
  let ?v = "rnd x"
  have v: "?v * bias = of_int ?n * 2 ^ ex x / 2 ^ 52"
    by (simp add: rnd_def)
  have v0: "0 \<le> ?v" using assms by (rule rnd_nonneg)
  have nle: "?n \<le> 2 ^ 53" using assms by (rule rne_man_le)
  have n0: "0 \<le> ?n" using man_nonneg[OF assms] by (rule rne_nonneg)
  show ?thesis
  proof (cases "?n = 2 ^ 53")
    case True
    have "?v * bias = 2 ^ Suc (ex x)"
      unfolding v True by simp
    then have e: "ex ?v = Suc (ex x)"
      by (intro ex_eqI) simp_all
    have "man ?v = of_int (2 ^ 52)"
      unfolding man_def e \<open>?v * bias = 2 ^ Suc (ex x)\<close> by simp
    then show ?thesis by (rule rnd_exact)
  next
    case False
    with nle have "?n < 2 ^ 53" by simp
    then have "(of_int ?n :: real) < of_int (2 ^ 53)" by (simp only: of_int_less_iff)
    then have "(of_int ?n :: real) * 2 ^ ex x < 2 ^ 53 * 2 ^ ex x"
      by (simp del: power_numeral)
    then have "?v * bias < 2 ^ Suc (ex x)"
      unfolding v by (simp add: divide_less_eq)
    then have le: "ex ?v \<le> ex x" by (rule ex_le)
    then obtain d where d: "ex x = ex ?v + d" using le_Suc_ex by blast
    have "man ?v = of_int ?n * 2 ^ ex x / 2 ^ ex ?v"
      unfolding man_def v by simp
    also have "\<dots> = of_int ?n * 2 ^ d"
      by (simp add: d power_add)
    also have "\<dots> = of_int (?n * 2 ^ d)" by simp
    finally show ?thesis by (rule rnd_exact)
  qed
qed

lemma rnd_nat:
  assumes "k < 2 ^ 53"
  shows "rnd (of_nat k) = of_nat k"
proof -
  have "real k < 2 ^ 53" using assms
    by (metis of_nat_less_iff of_nat_numeral of_nat_power)
  then have "real k * bias < 2 ^ 53 * bias" by simp
  also have "\<dots> = 2 ^ Suc 1074" by (simp add: bias_def)
  finally have "ex (real k) \<le> 1074" by (rule ex_le)
  then obtain d where d: "1074 = ex (real k) + d" using le_Suc_ex by blast
  have "bias * 2 ^ 52 = (2::real) ^ 1074" by (simp add: bias_def)
  then have "man (real k) = real k * 2 ^ 1074 / 2 ^ ex (real k)"
    by (simp add: man_def mult.assoc)
  also have "\<dots> = real k * 2 ^ d"
    by (simp only: d power_add) simp
  also have "\<dots> = of_int (int k * 2 ^ d)" by simp
  finally show ?thesis by (rule rnd_exact)
qed


subsection \<open>Rounding with overflow and sign\<close>

lemma fl_pos_mono:
  assumes "0 \<le> x" "x \<le> y"
  shows "jle (fl_pos x) (fl_pos y)"
  using rnd_mono[OF assms] by (simp add: fl_pos_def)

lemma fl_nonneg_eq: "0 \<le> x \<Longrightarrow> fl x = fl_pos x"
  by (simp add: fl_def)

lemma fl_mono:
  assumes "0 \<le> x" "x \<le> y"
  shows "jle (fl x) (fl y)"
  using fl_pos_mono[OF assms] assms by (simp add: fl_def)

lemma fl_pos_idem:
  assumes "0 \<le> x" "fl_pos x = Num v"
  shows "fl_pos v = Num v" "0 \<le> v"
proof -
  from assms(2) have v: "v = rnd x" and lt: "\<not> 4 * bias \<le> rnd x"
    by (auto simp: fl_pos_def split: if_splits)
  have "rnd v = v" unfolding v using assms(1) by (rule rnd_idem)
  then show "fl_pos v = Num v" using lt by (simp add: fl_pos_def v)
  show "0 \<le> v" unfolding v using assms(1) by (rule rnd_nonneg)
qed

lemma fl_idem:
  assumes "fl x = Num v"
  shows "fl v = Num v"
proof (cases "x < 0")
  case False
  then have "0 \<le> x" "fl_pos x = Num v" using assms by (simp_all add: fl_def)
  from fl_pos_idem[OF this] show ?thesis by (simp add: fl_def)
next
  case True
  then have nx: "0 \<le> - x" and j: "jneg (fl_pos (- x)) = Num v"
    using assms by (simp_all add: fl_def)
  then obtain w where w: "fl_pos (- x) = Num w" "v = - w"
    by (cases "fl_pos (- x)") auto
  from fl_pos_idem[OF nx w(1)] have i: "fl_pos w = Num w" "0 \<le> w" .
  show ?thesis
  proof (cases "w = 0")
    case True
    with i w show ?thesis by (simp add: fl_def)
  next
    case False
    with i have "v < 0" by (simp add: w)
    then show ?thesis using i by (simp add: fl_def w)
  qed
qed

lemma fl_nat:
  assumes "k < 2 ^ 53"
  shows "fl (of_nat k) = Num (of_nat k)"
proof -
  have "real k < 2 ^ 53" using assms
    by (metis of_nat_less_iff of_nat_numeral of_nat_power)
  also have "(2::real) ^ 53 \<le> 4 * bias" by (simp add: bias_def)
  finally have "\<not> 4 * bias \<le> real k" by simp
  then show ?thesis
    by (simp add: fl_def fl_pos_def rnd_nat[OF assms])
qed

lemma fl_nonneg_cases:
  assumes "0 \<le> x"
  obtains "fl x = PosInf" | v where "fl x = Num v" "0 \<le> v" "fl v = Num v"
proof (cases "4 * bias \<le> rnd x")
  case True
  then have "fl x = PosInf" using assms by (simp add: fl_def fl_pos_def)
  then show ?thesis by (rule that(1))
next
  case False
  then have e: "fl x = Num (rnd x)" using assms by (simp add: fl_def fl_pos_def)
  show ?thesis
    using e rnd_nonneg[OF assms] fl_idem[OF e] by (rule that(2))
qed

text \<open>Evaluation inside a binade.\<close>

lemma rnd_binade:
  assumes "2 powi k \<le> x" "x < 2 powi (k + 1)" "- 1022 \<le> k"
  shows "rnd x = of_int (rne (x / 2 powi (k - 52))) * 2 powi (k - 52)"
proof -
  define e where "e = nat (k + 1022)"
  have k: "k = int e - 1022" using assms(3) by (simp add: e_def)
  have b: "bias = 2 powi 1022" by (simp add: bias_def)
  have p: "(2::real) ^ e = 2 powi k * bias"
    by (simp add: k b power_int_diff)
  have p1: "(2::real) ^ Suc e = 2 powi (k + 1) * bias"
    by (simp add: k b power_int_diff power_int_add)
  have "2 ^ e \<le> x * bias" unfolding p using assms(1) by simp
  moreover have "x * bias < 2 ^ Suc e" unfolding p1 using assms(2) by simp
  ultimately have e: "ex x = e" by (rule ex_eqI)
  have q: "(2::real) ^ e / (bias * 2 ^ 52) = 2 powi (k - 52)"
    by (simp add: p power_int_diff)
  have m: "man x = x / 2 powi (k - 52)"
    by (simp add: man_def e q[symmetric])
  show ?thesis
    unfolding rnd_def m e by (subst q[symmetric]) simp
qed

text \<open>
  The value of \<open>fl\<close> at a number of the binade \<open>[2^k, 2^(k+1))\<close>: the multiple of
  \<open>2^(k-52)\<close> nearest to it.
\<close>

lemma fl_eval:
  assumes "2 powi k \<le> x" "x < 2 powi (k + 1)" "- 1022 \<le> k" "k \<le> 1022"
    and "of_int (rne (x / 2 powi (k - 52))) * 2 powi (k - 52) = v"
  shows "fl x = Num v"
proof -
  have x0: "0 < x" using assms(1) by (rule less_le_trans[rotated]) simp
  have r: "rnd x = v" using rnd_binade[OF assms(1-3)] assms(5) by simp
  have "x / 2 powi (k - 52) < 2 powi (k + 1) / 2 powi (k - 52)"
    using assms(2) by (simp add: divide_strict_right_mono)
  also have "\<dots> = of_int (2 ^ 53)"
    by (simp add: power_int_diff power_int_add)
  finally have "rne (x / 2 powi (k - 52)) \<le> rne (of_int (2 ^ 53))"
    by (intro rne_mono) simp
  then have "rne (x / 2 powi (k - 52)) \<le> 2 ^ 53" by (simp only: rne_of_int)
  then have "(of_int (rne (x / 2 powi (k - 52))) :: real) \<le> of_int (2 ^ 53)"
    by (simp only: of_int_le_iff)
  then have "v \<le> of_int (2 ^ 53) * 2 powi (k - 52)"
    unfolding assms(5)[symmetric] by (intro mult_right_mono) simp_all
  also have "\<dots> = 2 powi (k + 1)"
    by (simp add: power_int_diff power_int_add)
  also have "\<dots> \<le> 2 powi 1023"
    using assms(4) by (intro power_int_increasing) simp_all
  also have "\<dots> < 4 * bias" by (simp add: bias_def)
  finally have "\<not> 4 * bias \<le> v" by simp
  then show ?thesis using x0 by (simp add: fl_def fl_pos_def r)
qed

lemma fl_0 [simp]: "fl 0 = Num 0"
  using fl_nat[of 0] by simp

lemma fl_1 [simp]: "fl 1 = Num 1"
  using fl_nat[of 1] by simp

lemma jadd_nat_1:
  assumes "Suc k < 2 ^ 53"
  shows "jadd (Num (real k)) (Num 1) = Num (real (Suc k))"
proof -
  have "jadd (Num (real k)) (Num 1) = fl (real (Suc k))" by (simp add: add.commute)
  also have "\<dots> = Num (real (Suc k))" using assms by (rule fl_nat)
  finally show ?thesis .
qed


section \<open>The loop computes the recurrence\<close>

text \<open>
  Started at month \<open>k + 1\<close> with the balance \<open>total_rec a c r k\<close>, the loop runs up to
  month \<open>N\<close>, ends with the balance \<open>total_rec a c r N\<close> and appends one point for each
  month from \<open>k + 1\<close> to \<open>N\<close>. The counter stays exact, since \<open>N\<close> is far below \<open>2^53\<close>.
\<close>

lemma investLoop_params:
  assumes "k \<le> N" "Suc N < 2 ^ 53"
  shows "investLoop (params a c r y b) (Num (real N)) (jdiv (jdiv (Num r) 100) 12) (Num (real (Suc k)))
           (total_rec a c r k) pts
       = Some (total_rec a c r N,
           pts @ map (\<lambda>j. \<lparr>mois = Num (real j),
                           total = parseFloat_toFixed2 (total_rec a c r j),
                           investi = jadd (Num a) (jmul (Num c) (Num (real j)))\<rparr>)
                     [Suc k..<Suc N])"
  using assms
proof (induction "N - k" arbitrary: k pts)
  case 0
  then have "k = N" by simp
  then show ?case by (subst investLoop.simps) simp
next
  case (Suc d)
  then have lt: "k < N" and d: "d = N - Suc k" and le: "Suc k \<le> N" by simp_all
  from le Suc.prems(2) have "Suc (Suc k) < 2 ^ 53" by simp
  then have inc: "jadd (Num (real (Suc k))) (Num 1) = Num (real (Suc (Suc k)))"
    by (rule jadd_nat_1)
  have cond: "jle (Num (real (Suc k))) (Num (real N))" using le by simp
  have sel: "mensualite (params a c r y b) = Num c" "sommeInitiale (params a c r y b) = Num a"
    by (simp_all add: params_def)
  have step: "investLoop (params a c r y b) (Num (real N)) (jdiv (jdiv (Num r) 100) 12) (Num (real (Suc k)))
           (total_rec a c r k) pts
     = investLoop (params a c r y b) (Num (real N)) (jdiv (jdiv (Num r) 100) 12) (Num (real (Suc (Suc k))))
           (total_rec a c r (Suc k))
           (pts @ [\<lparr>mois = Num (real (Suc k)),
                    total = parseFloat_toFixed2 (total_rec a c r (Suc k)),
                    investi = jadd (Num a) (jmul (Num c) (Num (real (Suc k))))\<rparr>])"
    by (subst investLoop.simps) (simp only: cond if_True inc sel total_rec.simps)
  have "[Suc k..<Suc N] = Suc k # [Suc (Suc k)..<Suc N]"
    using le by (simp add: upt_conv_Cons)
  then show ?case
    unfolding step using Suc.hyps(1)[OF d le Suc.prems(2)] by simp
qed


lemma fl_2: "fl 2 = Num 2"
  using fl_nat[of 2] by simp

text \<open>The whole result on numeric inputs with at most 50 years.\<close>

lemma calculateInvestment_params:
  assumes "y \<le> 50"
  shows "calculateInvestment (params a c r y b) =
     Some \<lparr>montantTotal = parseFloat_toFixed2 (total_rec a c r (y * 12)),
           montantInvesti = jadd (Num a) (jmul (Num c) (Num (real (y * 12)))),
           gains = parseFloat_toFixed2
                     (jsub (total_rec a c r (y * 12))
                           (jadd (Num a) (jmul (Num c) (Num (real (y * 12)))))),
           graphData = \<lparr>mois = Num 0, total = Num a, investi = Num a\<rparr>
                  # map (\<lambda>j. \<lparr>mois = Num (real j),
                                total = parseFloat_toFixed2 (total_rec a c r j),
                                investi = jadd (Num a) (jmul (Num c) (Num (real j)))\<rparr>)
                        [Suc 0..<Suc (y * 12)],
           recommandation = calculateRecommendation b\<rparr>"
proof -
  from assms have "y * 12 \<le> 600" by simp
  also have "(600::nat) < 2 ^ 53 - 1" by simp
  finally have small: "y * 12 < 2 ^ 53" "Suc (y * 12) < 2 ^ 53" by simp_all
  have "jmul (Num (real y)) (Num 12) = fl (real (y * 12))" by simp
  also have "\<dots> = Num (real (y * 12))" using small(1) by (rule fl_nat)
  finally have nm: "jmul (nombreAnnees (params a c r y b)) (Num 12) = Num (real (y * 12))"
    by (simp add: params_def)
  have tm: "tauxAnnuel (params a c r y b) = Num r"
    by (simp add: params_def)
  have sel: "sommeInitiale (params a c r y b) = Num a"
    "mensualite (params a c r y b) = Num c" "trancheRevenu (params a c r y b) = b"
    by (simp_all add: params_def)
  have L: "investLoop (params a c r y b) (Num (real (y * 12))) (jdiv (jdiv (Num r) 100) 12)
             (Num 1) (Num a) [\<lparr>mois = Num 0, total = Num a, investi = Num a\<rparr>]
         = Some (total_rec a c r (y * 12),
            \<lparr>mois = Num 0, total = Num a, investi = Num a\<rparr> #
              map (\<lambda>j. \<lparr>mois = Num (real j),
                          total = parseFloat_toFixed2 (total_rec a c r j),
                          investi = jadd (Num a) (jmul (Num c) (Num (real j)))\<rparr>)
                  [Suc 0..<Suc (y * 12)])"
    using investLoop_params[of 0 "y * 12" a c r y b
        "[\<lparr>mois = Num 0, total = Num a, investi = Num a\<rparr>]"] small(2)
    by simp
  show ?thesis
    by (simp only: calculateInvestment_def Let_def nm tm sel L option.case prod.case)
qed

lemma graph_nth:
  "1 \<le> m \<Longrightarrow> m \<le> N \<Longrightarrow> (p0 # map f [Suc 0..<Suc N]) ! m = f m"
  by (cases m) (simp_all del: upt_Suc)

lemma graph_length: "length (p0 # map f [Suc 0..<Suc N]) = N + 1"
  by simp

subsection \<open>Properties of the two-decimal rounding\<close>

lemma toFixed2_nonneg_eq: "0 \<le> x \<Longrightarrow> toFixed2 x = of_int \<lfloor>x * 100 + 1 / 2\<rfloor> / 100"
  by (simp add: toFixed2_def)

lemma toFixed2_nonneg: "0 \<le> x \<Longrightarrow> 0 \<le> toFixed2 x"
  by (simp add: toFixed2_nonneg_eq)

lemma toFixed2_mono_nonneg: "0 \<le> x \<Longrightarrow> x \<le> y \<Longrightarrow> toFixed2 x \<le> toFixed2 y"
  by (simp add: toFixed2_nonneg_eq divide_right_mono floor_mono)

lemma toFixed2_near: "\<bar>toFixed2 x - x\<bar> \<le> 1 / 200"
proof -
  have b: "\<bar>of_int \<lfloor>y * 100 + 1 / 2\<rfloor> / 100 - y\<bar> \<le> 1 / 200" for y :: real
  proof -
    have "of_int \<lfloor>y * 100 + 1 / 2\<rfloor> \<le> y * 100 + 1 / 2"
      "y * 100 + 1 / 2 < of_int \<lfloor>y * 100 + 1 / 2\<rfloor> + 1"
      by linarith+
    then show ?thesis by linarith
  qed
  show ?thesis
  proof (cases "x < 0")
    case True
    then have "toFixed2 x = - (of_int \<lfloor>(- x) * 100 + 1 / 2\<rfloor> / 100)"
      by (simp add: toFixed2_def)
    then show ?thesis using b[of "- x"] by linarith
  next
    case False
    then show ?thesis using b[of x] by (simp add: toFixed2_def)
  qed
qed

lemma toFixed2_cents: "\<exists>k::int. toFixed2 x = of_int k / 100"
proof (cases "x < 0")
  case True
  then have "toFixed2 x = of_int (- \<lfloor>(- x) * 100 + 1 / 2\<rfloor>) / 100"
    by (simp add: toFixed2_def)
  then show ?thesis ..
next
  case False
  then have "toFixed2 x = of_int \<lfloor>x * 100 + 1 / 2\<rfloor> / 100"
    by (simp add: toFixed2_def)
  then show ?thesis ..
qed

lemma toFixed2_below:
  assumes "0 \<le> x" "x < 10 ^ 21"
  shows "toFixed2 x \<le> 10 ^ 21"
proof -
  have "x * 100 + 1 / 2 < of_int (10 ^ 23) + 1" using assms(2) by simp
  then have "\<lfloor>x * 100 + 1 / 2\<rfloor> \<le> 10 ^ 23" by (simp only: floor_le_iff)
  then have "(of_int \<lfloor>x * 100 + 1 / 2\<rfloor> :: real) \<le> of_int (10 ^ 23)"
    by (simp only: of_int_le_iff)
  then show ?thesis using assms(1) by (simp add: toFixed2_nonneg_eq)
qed

lemma fl_1e21: "fl (10 ^ 21) = Num (10 ^ 21)"
  by (rule fl_eval[where k = 69]) (simp_all add: rne_def)

lemma jle_trans: "jle x y \<Longrightarrow> jle y z \<Longrightarrow> jle x z"
  by (cases x; cases y; cases z) simp_all


subsection \<open>The balance never decreases\<close>

lemma nonneg_num_simps [simp]:
  "nonneg_num (Num x) \<longleftrightarrow> 0 \<le> x \<and> is_double x"
  "nonneg_num PosInf" "\<not> nonneg_num NegInf" "\<not> nonneg_num NaN"
  by (simp_all add: nonneg_num_def)

lemma nonneg_num_fl: "0 \<le> x \<Longrightarrow> nonneg_num (fl x)"
  by (rule fl_nonneg_cases[of x]) (simp_all add: is_double_def)

lemma jle_refl_nonneg: "nonneg_num t \<Longrightarrow> jle t t"
  by (cases t) simp_all

lemma jle_double_fl:
  assumes "0 \<le> x" "is_double x" "x \<le> y"
  shows "jle (Num x) (fl y)"
  using fl_mono[OF assms(1,3)] assms(2) by (simp add: is_double_def)

lemma jle_fl_double:
  assumes "0 \<le> x" "x \<le> y" "is_double y"
  shows "jle (fl x) (Num y)"
  using fl_mono[OF assms(1,2)] assms(3) by (simp add: is_double_def)

lemma fl_bounded:
  assumes "0 \<le> x" "x \<le> y" "is_double y"
  obtains v where "fl x = Num v" "0 \<le> v" "v \<le> y" "is_double v"
proof (rule fl_nonneg_cases[OF assms(1)])
  assume "fl x = PosInf"
  with jle_fl_double[OF assms] show ?thesis by simp
next
  fix v assume v: "fl x = Num v" "0 \<le> v" "fl v = Num v"
  with jle_fl_double[OF assms] have "v \<le> y" by simp
  with v show ?thesis by (intro that[of v]) (simp_all add: is_double_def)
qed

lemma is_double_1: "is_double 1"
  by (simp add: is_double_def)

lemma is_double_2: "is_double 2"
  by (simp add: is_double_def fl_2)

lemma growth_factor:
  assumes "0 \<le> r" "r \<le> 100"
  shows "\<exists>g. jadd (Num 1) (jdiv (jdiv (Num r) 100) 12) = Num g \<and> 1 \<le> g"
proof -
  have "0 \<le> r / 100" "r / 100 \<le> 1" using assms by simp_all
  from fl_bounded[OF this is_double_1]
  obtain p where p: "fl (r / 100) = Num p" "0 \<le> p" "p \<le> 1" by blast
  have "0 \<le> p / 12" "p / 12 \<le> 1" using p by simp_all
  from fl_bounded[OF this is_double_1]
  obtain t where t: "fl (p / 12) = Num t" "0 \<le> t" "t \<le> 1" by blast
  have "0 \<le> 1 + t" "1 + t \<le> 2" using t by simp_all
  from fl_bounded[OF this is_double_2]
  obtain g where g: "fl (1 + t) = Num g" by blast
  have "jle (Num 1) (fl (1 + t))"
    using t(2) by (intro jle_double_fl is_double_1) simp_all
  then have "1 \<le> g" by (simp add: g)
  moreover have "jadd (Num 1) (jdiv (jdiv (Num r) 100) 12) = Num g"
    by (simp add: p t g)
  ultimately show ?thesis by blast
qed

lemma step_nonneg_mono:
  assumes "nonneg_num t" "0 \<le> c" "1 \<le> g"
  shows "nonneg_num (jmul (jadd t (Num c)) (Num g)) \<and> jle t (jmul (jadd t (Num c)) (Num g))"
proof (cases t)
  case (Num x)
  with assms(1) have x: "0 \<le> x" "is_double x" by simp_all
  have xc: "0 \<le> x + c" "x \<le> x + c" using x(1) assms(2) by simp_all
  have g0: "0 < g" using assms(3) by simp
  show ?thesis
  proof (rule fl_nonneg_cases[OF xc(1)])
    assume "fl (x + c) = PosInf"
    then show ?thesis using g0 by (simp add: Num)
  next
    fix u assume u: "fl (x + c) = Num u" "0 \<le> u" "fl u = Num u"
    have "jle (Num x) (fl (x + c))" using x xc(2) by (intro jle_double_fl)
    then have xu: "x \<le> u" by (simp add: u)
    have ug: "0 \<le> u * g" "u \<le> u * g"
      using u(2) assms(3) by (simp_all add: mult_le_cancel_left1)
    have du: "is_double u" using u(3) by (simp add: is_double_def)
    have j: "jle (Num u) (fl (u * g))" using u(2) du ug(2) by (rule jle_double_fl)
    have n: "nonneg_num (fl (u * g))" using ug(1) by (rule nonneg_num_fl)
    have "jle (Num x) (fl (u * g))"
      using xu j by (cases "fl (u * g)") simp_all
    with n show ?thesis by (simp add: Num u)
  qed
next
  case PosInf
  then show ?thesis using assms(3) by simp
next
  case NegInf
  with assms(1) show ?thesis by simp
next
  case NaN
  with assms(1) show ?thesis by simp
qed

lemma total_rec_step:
  assumes "validated a c r y"
  shows "nonneg_num (total_rec a c r m) \<and> jle (total_rec a c r m) (total_rec a c r (Suc m))"
proof -
  from assms have v: "0 \<le> a" "is_double a" "0 \<le> c" "0 \<le> r" "r \<le> 100"
    by (simp_all add: validated_def)
  from growth_factor[OF v(4,5)]
  obtain g where g: "jadd (Num 1) (jdiv (jdiv (Num r) 100) 12) = Num g" "1 \<le> g" by blast
  have n: "nonneg_num (total_rec a c r m)"
  proof (induction m)
    case 0
    show ?case using v by simp
  next
    case (Suc m)
    from step_nonneg_mono[OF Suc v(3) g(2)] show ?case
      unfolding total_rec.simps g(1) by simp
  qed
  from step_nonneg_mono[OF n v(3) g(2)] n show ?thesis
    unfolding total_rec.simps g(1) by simp
qed

lemma total_rec_mono:
  assumes "validated a c r y" "i \<le> j"
  shows "jle (total_rec a c r i) (total_rec a c r j)"
  using assms(2)
proof (induction j)
  case 0
  then show ?case using total_rec_step[OF assms(1), of 0] by (simp add: jle_refl_nonneg)
next
  case (Suc j)
  show ?case
  proof (cases "i = Suc j")
    case True
    then show ?thesis using total_rec_step[OF assms(1), of "Suc j"] by (simp add: jle_refl_nonneg)
  next
    case False
    with Suc.prems have "i \<le> j" by simp
    then have "jle (total_rec a c r i) (total_rec a c r j)" by (rule Suc.IH)
    moreover have "jle (total_rec a c r j) (total_rec a c r (Suc j))"
      using total_rec_step[OF assms(1), of j] by simp
    ultimately show ?thesis by (rule jle_trans)
  qed
qed

lemma parseFloat_toFixed2_mono:
  assumes "nonneg_num t" "nonneg_num u" "jle t u"
  shows "jle (parseFloat_toFixed2 t) (parseFloat_toFixed2 u)"
proof (cases t)
  case (Num x)
  with assms(1) have x: "0 \<le> x" "is_double x" by simp_all
  have nt: "nonneg_num (parseFloat_toFixed2 t)"
    using x by (simp add: Num nonneg_num_fl toFixed2_nonneg)
  show ?thesis
  proof (cases u)
    case PosInf
    then show ?thesis using nt by (cases "parseFloat_toFixed2 t") simp_all
  next
    case (Num y)
    with assms(2,3) \<open>t = Num x\<close> have y: "0 \<le> y" "x \<le> y" by simp_all
    show ?thesis
    proof (cases "10 ^ 21 \<le> x")
      case True
      then show ?thesis using y x by (simp add: Num \<open>t = Num x\<close>)
    next
      case small: False
      show ?thesis
      proof (cases "10 ^ 21 \<le> y")
        case False
        then show ?thesis
          using small x y
          by (simp add: Num \<open>t = Num x\<close> fl_mono toFixed2_nonneg toFixed2_mono_nonneg)
      next
        case True
        have "toFixed2 x \<le> 10 ^ 21" using x(1) small by (intro toFixed2_below) simp_all
        moreover have "is_double (10 ^ 21)" by (simp only: is_double_def fl_1e21)
        ultimately have "jle (fl (toFixed2 x)) (Num (10 ^ 21))"
          using toFixed2_nonneg[OF x(1)] by (intro jle_fl_double)
        moreover have "jle (Num (10 ^ 21)) (Num y)" using True by simp
        ultimately have "jle (fl (toFixed2 x)) (Num y)" by (rule jle_trans)
        then show ?thesis using small x y True by (simp add: Num \<open>t = Num x\<close>)
      qed
    qed
  next
    case NegInf
    with assms(2) show ?thesis by simp
  next
    case NaN
    with assms(2) show ?thesis by simp
  qed
next
  case PosInf
  with assms(2,3) show ?thesis by (cases u) simp_all
next
  case NegInf
  with assms(1) show ?thesis by simp
next
  case NaN
  with assms(1) show ?thesis by simp
qed


subsection \<open>The fields of the result\<close>

lemma results_params:
  assumes "y \<le> 50"
  obtains res where "calculateInvestment (params a c r y b) = Some res"
    "montantTotal res = parseFloat_toFixed2 (total_rec a c r (y * 12))"
    "montantInvesti res = jadd (Num a) (jmul (Num c) (Num (real (y * 12))))"
    "gains res = parseFloat_toFixed2
                     (jsub (total_rec a c r (y * 12))
                           (jadd (Num a) (jmul (Num c) (Num (real (y * 12))))))"
    "graphData res = \<lparr>mois = Num 0, total = Num a, investi = Num a\<rparr>
                  # map (\<lambda>j. \<lparr>mois = Num (real j),
                                total = parseFloat_toFixed2 (total_rec a c r j),
                                investi = jadd (Num a) (jmul (Num c) (Num (real j)))\<rparr>)
                        [Suc 0..<Suc (y * 12)]"
    "recommandation res = calculateRecommendation b"
  by (rule that[OF calculateInvestment_params[OF assms]]) (simp_all only: results.simps)

lemma jadd_jmul_zero:
  assumes "is_double a"
  shows "jadd (Num a) (jmul (Num c) (Num 0)) = Num a"
  using assms by (simp add: is_double_def)

lemma jadd_jmul_exact:
  assumes "is_double (c * n)" "is_double (a + c * n)"
  shows "jadd (Num a) (jmul (Num c) (Num n)) = Num (a + c * n)"
  using assms by (simp add: is_double_def)

subsection \<open>Values of the rounding\<close>

lemma rate_3:
  "jadd (Num 1) (jdiv (jdiv (Num 3) 100) 12) = Num (2257429313219461 / 2 ^ 51)"
proof -
  have "fl (3 / 100) = Num (1080863910568919 / 2 ^ 55)"
    by (rule fl_eval[where k = "- 6"]) (simp_all add: rne_def)
  moreover have "fl (1080863910568919 / 2 ^ 55 / 12) = Num (5764607523034235 / 2 ^ 61)"
    by (rule fl_eval[where k = "- 9"]) (simp_all add: rne_def)
  moreover have "fl (1 + 5764607523034235 / 2 ^ 61) = Num (2257429313219461 / 2 ^ 51)"
    by (rule fl_eval[where k = 0]) (simp_all add: rne_def)
  ultimately show ?thesis by (simp only: jdiv.simps jadd.simps)
qed

lemma is_double_nat: "k < 2 ^ 53 \<Longrightarrow> is_double (real k)"
  by (simp add: is_double_def fl_nat)

lemma validated_0_10_3_1: "validated 0 10 3 1"
  using is_double_nat[of 0] is_double_nat[of 10] is_double_nat[of 3]
  by (simp add: validated_def)

lemma total_rec_0_10_3_1:
  "total_rec 0 10 3 1 = Num (1410893320762163 / 2 ^ 47)"
proof -
  have "jadd (Num 0) (Num 10) = Num 10"
    using fl_nat[of 10] by simp
  moreover have "fl (10 * (2257429313219461 / 2 ^ 51)) = Num (1410893320762163 / 2 ^ 47)"
    by (rule fl_eval[where k = 3]) (simp_all add: rne_def)
  ultimately show ?thesis
    by (simp only: One_nat_def total_rec.simps rate_3 jmul.simps)
qed

lemma stored_10_02:
  "parseFloat_toFixed2 (Num (1410893320762163 / 2 ^ 47)) = fl (1002 / 100)"
  "fl (1002 / 100) = Num (2820379266640773 / 2 ^ 48)"
proof -
  have t: "toFixed2 (1410893320762163 / 2 ^ 47) = 1002 / 100"
    by (simp add: toFixed2_def)
  have s: "\<not> 10 ^ 21 \<le> \<bar>1410893320762163 / 2 ^ 47 :: real\<bar>"
    by simp
  show "parseFloat_toFixed2 (Num (1410893320762163 / 2 ^ 47)) = fl (1002 / 100)"
    by (simp only: parseFloat_toFixed2.simps s if_False t)
  show "fl (1002 / 100) = Num (2820379266640773 / 2 ^ 48)"
    by (rule fl_eval[where k = 3]) (simp_all add: rne_def)
qed

lemma is_double_0_1: "is_double (3602879701896397 / 2 ^ 55)"
  unfolding is_double_def by (rule fl_eval[where k = "- 4"]) (simp_all add: rne_def)

lemma validated_0_01_0_1: "validated 0 (3602879701896397 / 2 ^ 55) 0 1"
  using is_double_nat[of 0] is_double_0_1 by (simp add: validated_def)

lemma contributed_0_1_times_7:
  "jadd (Num 0) (jmul (Num (3602879701896397 / 2 ^ 55)) (Num (real 7)))
     = Num (6305039478318695 / 2 ^ 53)"
proof -
  have e: "fl (3602879701896397 / 2 ^ 55 * 7) = Num (6305039478318695 / 2 ^ 53)"
    by (rule fl_eval[where k = "- 1"]) (simp_all add: rne_def)
  have "fl (0 + 6305039478318695 / 2 ^ 53) = Num (6305039478318695 / 2 ^ 53)"
    using fl_idem[OF e] by simp
  with e show ?thesis by simp
qed

lemma contributed_0_1_times_12:
  "jadd (Num 0) (jmul (Num (3602879701896397 / 2 ^ 55)) (Num (real (1 * 12))))
     = Num (1351079888211149 / 2 ^ 50)"
proof -
  have e: "fl (3602879701896397 / 2 ^ 55 * 12) = Num (1351079888211149 / 2 ^ 50)"
    by (rule fl_eval[where k = 0]) (simp_all add: rne_def)
  have "fl (0 + 1351079888211149 / 2 ^ 50) = Num (1351079888211149 / 2 ^ 50)"
    using fl_idem[OF e] by simp
  with e show ?thesis by simp
qed

lemma is_double_0_004: "is_double (1152921504606847 / 2 ^ 58)"
  unfolding is_double_def by (rule fl_eval[where k = "- 8"]) (simp_all add: rne_def)

lemma toFixed2_0_004: "toFixed2 (1152921504606847 / 2 ^ 58) = 0"
  by (simp add: toFixed2_def)


section \<open>The simulation\<close>

lemma validated_small: "validated a c r y \<Longrightarrow> y \<le> 50"
  by (simp add: validated_def)

text \<open>
  Claim C1. For validated parameters the simulation returns a result. The final total
  is the balance of the contribution-then-growth recurrence after \<open>years * 12\<close> months
  (the contribution is added before the month's growth factor is applied, in
  floating point), rounded to two decimals, and for every month \<open>m\<close> from 1 to
  \<open>years * 12\<close> the point \<open>m\<close> of the series carries the balance after \<open>m\<close> months rounded
  to two decimals. The rounding gives the double nearest to a whole number of cents
  that is at most half a cent away from the balance (balances below \<open>10^21\<close>).
\<close>

theorem simulate_recurrence:
  assumes "validated a c r y"
  shows "\<exists>res. calculateInvestment (params a c r y b) = Some res
       \<and> montantTotal res = parseFloat_toFixed2 (total_rec a c r (y * 12))
       \<and> (\<forall>m. 1 \<le> m \<and> m \<le> y * 12 \<longrightarrow>
             total (graphData res ! m) = parseFloat_toFixed2 (total_rec a c r m))
       \<and> (\<forall>m x. total_rec a c r m = Num x \<and> \<bar>x\<bar> < 10 ^ 21 \<longrightarrow>
             (\<exists>k::int. parseFloat_toFixed2 (total_rec a c r m) = fl (of_int k / 100)
                       \<and> \<bar>of_int k / 100 - x\<bar> \<le> 1 / 200))"
proof -
  from results_params[OF validated_small[OF assms], of a c r b]
  obtain res where res: "calculateInvestment (params a c r y b) = Some res"
    "montantTotal res = parseFloat_toFixed2 (total_rec a c r (y * 12))"
    "graphData res = \<lparr>mois = Num 0, total = Num a, investi = Num a\<rparr>
                  # map (\<lambda>j. \<lparr>mois = Num (real j),
                                total = parseFloat_toFixed2 (total_rec a c r j),
                                investi = jadd (Num a) (jmul (Num c) (Num (real j)))\<rparr>)
                        [Suc 0..<Suc (y * 12)]"
    by blast
  have pts: "total (graphData res ! m) = parseFloat_toFixed2 (total_rec a c r m)"
    if "1 \<le> m \<and> m \<le> y * 12" for m
  proof -
    from that have m: "1 \<le> m" "m \<le> y * 12" by simp_all
    show ?thesis unfolding res(3) by (simp only: graph_nth[OF m] point.simps)
  qed
  have cents: "\<exists>k::int. parseFloat_toFixed2 (total_rec a c r m) = fl (of_int k / 100)
                       \<and> \<bar>of_int k / 100 - x\<bar> \<le> 1 / 200"
    if "total_rec a c r m = Num x \<and> \<bar>x\<bar> < 10 ^ 21" for m x
  proof -
    from toFixed2_cents[of x] obtain k :: int where k: "toFixed2 x = of_int k / 100" ..
    have "parseFloat_toFixed2 (total_rec a c r m) = fl (of_int k / 100)"
      using that by (simp add: k)
    moreover have "\<bar>of_int k / 100 - x\<bar> \<le> 1 / 200"
      using toFixed2_near[of x] by (simp only: k)
    ultimately show ?thesis by blast
  qed
  from res(1,2) pts cents show ?thesis by blast
qed

text \<open>
  With no capital, a contribution of 10, a rate of 3 and one year, the balance after
  one month is the double just below 10.025 and the point 1 stores 10.02.
\<close>

theorem simulate_recurrence_witness:
  "validated 0 10 3 1 \<and> (1::nat) \<le> 1 \<and> (1::nat) \<le> 1 * 12
   \<and> (\<exists>res. calculateInvestment (params 0 10 3 1 ''moins-2000'') = Some res
         \<and> total (graphData res ! 1) = fl (1002 / 100))
   \<and> fl (1002 / 100) = Num (2820379266640773 / 2 ^ 48)"
proof -
  from simulate_recurrence[OF validated_0_10_3_1, of "''moins-2000''"]
  obtain res where res: "calculateInvestment (params 0 10 3 1 ''moins-2000'') = Some res"
    and pts: "\<forall>m. 1 \<le> m \<and> m \<le> 1 * 12 \<longrightarrow>
             total (graphData res ! m) = parseFloat_toFixed2 (total_rec 0 10 3 m)"
    by blast
  have m: "(1::nat) \<le> 1 \<and> (1::nat) \<le> 1 * 12" by simp
  from pts[THEN spec, of 1] m
  have "total (graphData res ! 1) = parseFloat_toFixed2 (total_rec 0 10 3 1)"
    by (rule mp)
  then have "total (graphData res ! 1) = fl (1002 / 100)"
    by (simp only: total_rec_0_10_3_1 stored_10_02(1))
  with res have "\<exists>res. calculateInvestment (params 0 10 3 1 ''moins-2000'') = Some res
         \<and> total (graphData res ! 1) = fl (1002 / 100)"
    by blast
  with validated_0_10_3_1 m stored_10_02(2) show ?thesis by (intro conjI) simp_all
qed


text \<open>
  Claim C2. For validated parameters, the series has \<open>years * 12 + 1\<close> points, the first
  one is \<open>{0, initialCapital, initialCapital}\<close>, and the point at index \<open>m\<close> has the month
  \<open>m\<close> and the contributed amount \<open>initialCapital + monthlyContribution * m\<close>, the product
  and the sum being those of JavaScript (each gives the nearest double); where the
  exact product and sum are doubles, that is the exact amount.
\<close>

theorem series_shape:
  assumes "validated a c r y"
  shows "\<exists>res. calculateInvestment (params a c r y b) = Some res
       \<and> length (graphData res) = y * 12 + 1
       \<and> graphData res ! 0 = \<lparr>mois = Num 0, total = Num a, investi = Num a\<rparr>
       \<and> (\<forall>m. m \<le> y * 12 \<longrightarrow>
             mois (graphData res ! m) = Num (real m)
           \<and> investi (graphData res ! m) = jadd (Num a) (jmul (Num c) (Num (real m)))
           \<and> (is_double (c * real m) \<and> is_double (a + c * real m) \<longrightarrow>
                investi (graphData res ! m) = Num (a + c * real m)))"
proof -
  from results_params[OF validated_small[OF assms], of a c r b]
  obtain res where res: "calculateInvestment (params a c r y b) = Some res"
    "graphData res = \<lparr>mois = Num 0, total = Num a, investi = Num a\<rparr>
                  # map (\<lambda>j. \<lparr>mois = Num (real j),
                                total = parseFloat_toFixed2 (total_rec a c r j),
                                investi = jadd (Num a) (jmul (Num c) (Num (real j)))\<rparr>)
                        [Suc 0..<Suc (y * 12)]"
    by blast
  from assms have da: "is_double a" by (simp add: validated_def)
  have len: "length (graphData res) = y * 12 + 1"
    unfolding res(2) by (rule graph_length)
  have first: "graphData res ! 0 = \<lparr>mois = Num 0, total = Num a, investi = Num a\<rparr>"
    unfolding res(2) by simp
  have rest: "mois (graphData res ! m) = Num (real m)
           \<and> investi (graphData res ! m) = jadd (Num a) (jmul (Num c) (Num (real m)))
           \<and> (is_double (c * real m) \<and> is_double (a + c * real m) \<longrightarrow>
                investi (graphData res ! m) = Num (a + c * real m))"
    if "m \<le> y * 12" for m
  proof -
    have p: "mois (graphData res ! m) = Num (real m)
           \<and> investi (graphData res ! m) = jadd (Num a) (jmul (Num c) (Num (real m)))"
    proof (cases "m = 0")
      case True
      then show ?thesis using first jadd_jmul_zero[OF da, of c] by simp
    next
      case False
      then have m: "1 \<le> m" "m \<le> y * 12" using that by simp_all
      show ?thesis unfolding res(2) by (simp only: graph_nth[OF m] point.simps simp_thms)
    qed
    then show ?thesis using jadd_jmul_exact[of c "real m" a] by metis
  qed
  from res(1) len first rest show ?thesis by blast
qed

text \<open>
  With a contribution of 0.1 (the double nearest to it), the point 7 stores the
  contributed amount 0.7000000000000001.
\<close>

theorem series_shape_witness:
  "validated 0 (3602879701896397 / 2 ^ 55) 0 1 \<and> (7::nat) \<le> 1 * 12
   \<and> (\<exists>res. calculateInvestment (params 0 (3602879701896397 / 2 ^ 55) 0 1 ''moins-2000'')
               = Some res
         \<and> length (graphData res) = 1 * 12 + 1
         \<and> mois (graphData res ! 7) = Num (real 7)
         \<and> investi (graphData res ! 7) = Num (6305039478318695 / 2 ^ 53))"
proof -
  from series_shape[OF validated_0_01_0_1, of "''moins-2000''"]
  obtain res where res:
    "calculateInvestment (params 0 (3602879701896397 / 2 ^ 55) 0 1 ''moins-2000'') = Some res"
    "length (graphData res) = 1 * 12 + 1"
    and pts: "\<forall>m. m \<le> 1 * 12 \<longrightarrow>
             mois (graphData res ! m) = Num (real m)
           \<and> investi (graphData res ! m)
               = jadd (Num 0) (jmul (Num (3602879701896397 / 2 ^ 55)) (Num (real m)))
           \<and> (is_double (3602879701896397 / 2 ^ 55 * real m)
                \<and> is_double (0 + 3602879701896397 / 2 ^ 55 * real m) \<longrightarrow>
                investi (graphData res ! m) = Num (0 + 3602879701896397 / 2 ^ 55 * real m))"
    by blast
  have m: "(7::nat) \<le> 1 * 12" by simp
  from pts[THEN spec, of 7] m
  have p: "mois (graphData res ! 7) = Num (real 7)
           \<and> investi (graphData res ! 7)
               = jadd (Num 0) (jmul (Num (3602879701896397 / 2 ^ 55)) (Num (real 7)))
           \<and> (is_double (3602879701896397 / 2 ^ 55 * real 7)
                \<and> is_double (0 + 3602879701896397 / 2 ^ 55 * real 7) \<longrightarrow>
                investi (graphData res ! 7) = Num (0 + 3602879701896397 / 2 ^ 55 * real 7))"
    by (rule mp)
  then have "investi (graphData res ! 7) = Num (6305039478318695 / 2 ^ 53)"
    by (simp only: contributed_0_1_times_7)
  with res p have "\<exists>res. calculateInvestment (params 0 (3602879701896397 / 2 ^ 55) 0 1 ''moins-2000'')
               = Some res
         \<and> length (graphData res) = 1 * 12 + 1
         \<and> mois (graphData res ! 7) = Num (real 7)
         \<and> investi (graphData res ! 7) = Num (6305039478318695 / 2 ^ 53)"
    by blast
  with validated_0_01_0_1 m show ?thesis by (intro conjI)
qed

text \<open>
  Claim C3. For validated parameters, the invested amount of the result is
  \<open>initialCapital + monthlyContribution * (years * 12)\<close>, one JavaScript product and one
  sum: it is not rounded to two decimals and not accumulated over the months. It is
  the contributed amount of the last point, and the exact amount where the exact
  product and sum are doubles.
\<close>

theorem totalContributed_exact:
  assumes "validated a c r y"
  shows "\<exists>res. calculateInvestment (params a c r y b) = Some res
       \<and> montantInvesti res = jadd (Num a) (jmul (Num c) (Num (real (y * 12))))
       \<and> montantInvesti res = investi (graphData res ! (y * 12))
       \<and> (is_double (c * real (y * 12)) \<and> is_double (a + c * real (y * 12)) \<longrightarrow>
            montantInvesti res = Num (a + c * real (y * 12)))"
proof -
  from results_params[OF validated_small[OF assms], of a c r b]
  obtain res where res: "calculateInvestment (params a c r y b) = Some res"
    "montantInvesti res = jadd (Num a) (jmul (Num c) (Num (real (y * 12))))"
    "graphData res = \<lparr>mois = Num 0, total = Num a, investi = Num a\<rparr>
                  # map (\<lambda>j. \<lparr>mois = Num (real j),
                                total = parseFloat_toFixed2 (total_rec a c r j),
                                investi = jadd (Num a) (jmul (Num c) (Num (real j)))\<rparr>)
                        [Suc 0..<Suc (y * 12)]"
    by blast
  from assms have "1 \<le> y" by (simp add: validated_def)
  then have m: "1 \<le> y * 12" "y * 12 \<le> y * 12" by simp_all
  have last: "montantInvesti res = investi (graphData res ! (y * 12))"
    unfolding res(2,3) by (simp only: graph_nth[OF m] point.simps)
  have exact: "is_double (c * real (y * 12)) \<and> is_double (a + c * real (y * 12)) \<longrightarrow>
            montantInvesti res = Num (a + c * real (y * 12))"
    unfolding res(2) using jadd_jmul_exact[of c "real (y * 12)" a] by blast
  from res(1,2) last exact show ?thesis by blast
qed

text \<open>
  With a contribution of 0.1 and one year the invested amount is 1.2000000000000002.
\<close>

theorem totalContributed_exact_witness:
  "validated 0 (3602879701896397 / 2 ^ 55) 0 1
   \<and> (\<exists>res. calculateInvestment (params 0 (3602879701896397 / 2 ^ 55) 0 1 ''moins-2000'')
               = Some res
         \<and> montantInvesti res = Num (1351079888211149 / 2 ^ 50))"
proof -
  from totalContributed_exact[OF validated_0_01_0_1, of "''moins-2000''"]
  obtain res where res:
    "calculateInvestment (params 0 (3602879701896397 / 2 ^ 55) 0 1 ''moins-2000'') = Some res"
    "montantInvesti res
       = jadd (Num 0) (jmul (Num (3602879701896397 / 2 ^ 55)) (Num (real (1 * 12))))"
    by blast
  from res(2) have "montantInvesti res = Num (1351079888211149 / 2 ^ 50)"
    by (simp only: contributed_0_1_times_12)
  with res(1) have "\<exists>res. calculateInvestment (params 0 (3602879701896397 / 2 ^ 55) 0 1 ''moins-2000'')
               = Some res
         \<and> montantInvesti res = Num (1351079888211149 / 2 ^ 50)"
    by blast
  with validated_0_01_0_1 show ?thesis by (intro conjI)
qed

text \<open>
  Claim C4, amended. For validated parameters, the gain of the result is the
  difference between the unrounded final balance and the invested amount, rounded to
  two decimals: the rounding is applied to the difference, not to the final balance
  before the subtraction.
\<close>

theorem totalGain_rounds_difference:
  assumes "validated a c r y"
  shows "\<exists>res. calculateInvestment (params a c r y b) = Some res
       \<and> gains res = parseFloat_toFixed2 (jsub (total_rec a c r (y * 12)) (montantInvesti res))"
proof -
  from results_params[OF validated_small[OF assms], of a c r b]
  obtain res where res: "calculateInvestment (params a c r y b) = Some res"
    "montantInvesti res = jadd (Num a) (jmul (Num c) (Num (real (y * 12))))"
    "gains res = parseFloat_toFixed2
                     (jsub (total_rec a c r (y * 12))
                           (jadd (Num a) (jmul (Num c) (Num (real (y * 12))))))"
    by blast
  from res(3) have "gains res
      = parseFloat_toFixed2 (jsub (total_rec a c r (y * 12)) (montantInvesti res))"
    by (simp only: res(2))
  with res(1) show ?thesis by blast
qed

theorem totalGain_rounds_difference_witness:
  "validated 0 10 3 1
   \<and> (\<exists>res. calculateInvestment (params 0 10 3 1 ''moins-2000'') = Some res
         \<and> gains res = parseFloat_toFixed2 (jsub (total_rec 0 10 3 (1 * 12)) (montantInvesti res)))"
  using validated_0_10_3_1 totalGain_rounds_difference[OF validated_0_10_3_1, of "''moins-2000''"]
  by (intro conjI)

text \<open>
  The claim C4 as stated fails: with an initial capital of 0.004 (the double nearest
  to it), no contribution, a rate of 0 and one year, the balance stays 0.004, the
  final total is 0.00 and the invested amount 0.004; the gain is 0.00, not
  \<open>0.00 - 0.004\<close>.
\<close>

lemma validated_0_004_0_0_1: "validated (1152921504606847 / 2 ^ 58) 0 0 1"
  using is_double_nat[of 0] is_double_0_004 by (simp add: validated_def)

lemma total_rec_flat:
  assumes "is_double a"
  shows "total_rec a 0 0 m = Num a"
proof (induction m)
  case 0
  show ?case by simp
next
  case (Suc m)
  have "jadd (Num 1) (jdiv (jdiv (Num 0) 100) 12) = Num 1" by simp
  moreover have "jmul (jadd (Num a) (Num 0)) (Num 1) = Num a"
    using assms by (simp add: is_double_def)
  ultimately show ?case by (simp only: total_rec.simps Suc)
qed

theorem totalGain_counterexample:
  "validated (1152921504606847 / 2 ^ 58) 0 0 1
   \<and> (\<exists>res. calculateInvestment (params (1152921504606847 / 2 ^ 58) 0 0 1 ''moins-2000'')
               = Some res
         \<and> montantTotal res = Num 0
         \<and> montantInvesti res = Num (1152921504606847 / 2 ^ 58)
         \<and> gains res = Num 0
         \<and> gains res \<noteq> jsub (montantTotal res) (montantInvesti res))"
proof -
  let ?d = "1152921504606847 / 2 ^ 58 :: real"
  from results_params[of 1 ?d 0 0 "''moins-2000''"]
  obtain res where res: "calculateInvestment (params ?d 0 0 1 ''moins-2000'') = Some res"
    "montantTotal res = parseFloat_toFixed2 (total_rec ?d 0 0 (1 * 12))"
    "montantInvesti res = jadd (Num ?d) (jmul (Num 0) (Num (real (1 * 12))))"
    "gains res = parseFloat_toFixed2
                     (jsub (total_rec ?d 0 0 (1 * 12))
                           (jadd (Num ?d) (jmul (Num 0) (Num (real (1 * 12))))))"
    by auto
  have fd: "fl ?d = Num ?d" using is_double_0_004 by (simp only: is_double_def)
  have small: "\<not> 10 ^ 21 \<le> \<bar>?d\<bar>" by simp
  have T: "total_rec ?d 0 0 (1 * 12) = Num ?d"
    using is_double_0_004 by (rule total_rec_flat)
  have mt: "montantTotal res = Num 0"
    unfolding res(2) T by (simp only: parseFloat_toFixed2.simps small if_False toFixed2_0_004 fl_0)
  have "jmul (Num 0) (Num (real (1 * 12))) = Num 0" by simp
  moreover have "jadd (Num ?d) (Num 0) = Num ?d" using fd by simp
  ultimately have mi: "montantInvesti res = Num ?d"
    unfolding res(3) by (simp only:)
  have "jsub (Num ?d) (Num ?d) = Num 0" by (simp add: jsub_def)
  moreover have "parseFloat_toFixed2 (Num 0) = Num 0" by (simp add: toFixed2_def)
  ultimately have g: "gains res = Num 0"
    unfolding res(4) T \<open>jmul (Num 0) (Num (real (1 * 12))) = Num 0\<close>
      \<open>jadd (Num ?d) (Num 0) = Num ?d\<close> by (simp only:)
  have "jsub (Num 0) (Num ?d) = Num (- ?d)"
    using fd by (simp add: jsub_def fl_def)
  then have ne: "gains res \<noteq> jsub (montantTotal res) (montantInvesti res)"
    unfolding g mt mi by simp
  from res(1) mt mi g ne
  have "\<exists>res. calculateInvestment (params ?d 0 0 1 ''moins-2000'') = Some res
         \<and> montantTotal res = Num 0
         \<and> montantInvesti res = Num ?d
         \<and> gains res = Num 0
         \<and> gains res \<noteq> jsub (montantTotal res) (montantInvesti res)"
    by blast
  with validated_0_004_0_0_1 show ?thesis by (intro conjI)
qed


subsection \<open>Monotonicity\<close>

lemma total_point_params:
  assumes "graphData res = \<lparr>mois = Num 0, total = Num a, investi = Num a\<rparr>
                  # map (\<lambda>j. \<lparr>mois = Num (real j),
                                total = parseFloat_toFixed2 (total_rec a c r j),
                                investi = jadd (Num a) (jmul (Num c) (Num (real j)))\<rparr>)
                        [Suc 0..<Suc N]"
  shows "1 \<le> m \<Longrightarrow> m \<le> N \<Longrightarrow>
           total (graphData res ! m) = parseFloat_toFixed2 (total_rec a c r m)"
    and "total (graphData res ! 0) = Num a"
proof -
  show "total (graphData res ! m) = parseFloat_toFixed2 (total_rec a c r m)"
    if "1 \<le> m" "m \<le> N"
    unfolding assms by (simp only: graph_nth[OF that] point.simps)
  show "total (graphData res ! 0) = Num a"
    unfolding assms by simp
qed

lemma stored_mono:
  assumes "validated a c r y" "i \<le> j"
  shows "jle (parseFloat_toFixed2 (total_rec a c r i)) (parseFloat_toFixed2 (total_rec a c r j))"
  using total_rec_step[OF assms(1), of i] total_rec_step[OF assms(1), of j]
    total_rec_mono[OF assms]
  by (intro parseFloat_toFixed2_mono) simp_all

text \<open>
  Claim C7, amended. For validated parameters with a positive rate, the stored totals
  of the series do not decrease from index 1 on. The point at index 0 stores the
  initial capital as it is, not rounded; when the initial capital is a whole number of
  cents, the whole series, index 0 included, does not decrease.
\<close>

theorem series_nondecreasing:
  assumes "validated a c r y" and "0 < r"
  shows "\<exists>res. calculateInvestment (params a c r y b) = Some res
       \<and> (\<forall>i j. 1 \<le> i \<and> i \<le> j \<and> j \<le> y * 12 \<longrightarrow>
            jle (total (graphData res ! i)) (total (graphData res ! j)))
       \<and> (parseFloat_toFixed2 (Num a) = Num a \<longrightarrow>
            (\<forall>i j. i \<le> j \<and> j \<le> y * 12 \<longrightarrow>
               jle (total (graphData res ! i)) (total (graphData res ! j))))"
proof -
  from results_params[OF validated_small[OF assms(1)], of a c r b]
  obtain res where res: "calculateInvestment (params a c r y b) = Some res"
    "graphData res = \<lparr>mois = Num 0, total = Num a, investi = Num a\<rparr>
                  # map (\<lambda>j. \<lparr>mois = Num (real j),
                                total = parseFloat_toFixed2 (total_rec a c r j),
                                investi = jadd (Num a) (jmul (Num c) (Num (real j)))\<rparr>)
                        [Suc 0..<Suc (y * 12)]"
    by blast
  note pt = total_point_params[OF res(2)]
  have from1: "jle (total (graphData res ! i)) (total (graphData res ! j))"
    if "1 \<le> i \<and> i \<le> j \<and> j \<le> y * 12" for i j
  proof -
    from that have ij: "1 \<le> i" "i \<le> y * 12" "1 \<le> j" "j \<le> y * 12" "i \<le> j" by simp_all
    show ?thesis
      unfolding pt(1)[OF ij(1,2)] pt(1)[OF ij(3,4)] using assms(1) ij(5) by (rule stored_mono)
  qed
  have from0: "jle (total (graphData res ! i)) (total (graphData res ! j))"
    if cents: "parseFloat_toFixed2 (Num a) = Num a" and ij: "i \<le> j \<and> j \<le> y * 12" for i j
  proof -
    have p: "total (graphData res ! m) = parseFloat_toFixed2 (total_rec a c r m)"
      if "m \<le> y * 12" for m
    proof (cases "m = 0")
      case True
      then show ?thesis using pt(2) cents by simp
    next
      case False
      then have "1 \<le> m" by simp
      then show ?thesis using that by (rule pt(1))
    qed
    from ij have "i \<le> y * 12" "j \<le> y * 12" "i \<le> j" by simp_all
    then show ?thesis
      unfolding p[OF \<open>i \<le> y * 12\<close>] p[OF \<open>j \<le> y * 12\<close>] using assms(1) by (intro stored_mono)
  qed
  from res(1) from1 from0 show ?thesis by blast
qed

lemma validated_0_120_3_3: "validated 0 120 3 3"
  using is_double_nat[of 0] is_double_nat[of 120] is_double_nat[of 3]
  by (simp add: validated_def)

theorem series_nondecreasing_witness:
  "validated 0 120 3 3 \<and> (0::real) < 3
   \<and> (1::nat) \<le> 2 \<and> (2::nat) \<le> 7 \<and> (7::nat) \<le> 3 * 12
   \<and> parseFloat_toFixed2 (Num 0) = Num 0 \<and> (0::nat) \<le> 7
   \<and> (\<exists>res. calculateInvestment (params 0 120 3 3 ''moins-2000'') = Some res
         \<and> jle (total (graphData res ! 2)) (total (graphData res ! 7))
         \<and> jle (total (graphData res ! 0)) (total (graphData res ! 7)))"
proof -
  have r: "(0::real) < 3" by simp
  have z: "parseFloat_toFixed2 (Num 0) = Num 0" by (simp add: toFixed2_def)
  have ij: "(1::nat) \<le> 2 \<and> (2::nat) \<le> 7 \<and> (7::nat) \<le> 3 * 12" by simp
  have oj: "(0::nat) \<le> 7 \<and> (7::nat) \<le> 3 * 12" by simp
  from series_nondecreasing[OF validated_0_120_3_3 r, of "''moins-2000''"]
  obtain res where res: "calculateInvestment (params 0 120 3 3 ''moins-2000'') = Some res"
    and m1: "\<forall>i j. 1 \<le> i \<and> i \<le> j \<and> j \<le> 3 * 12 \<longrightarrow>
            jle (total (graphData res ! i)) (total (graphData res ! j))"
    and m0: "parseFloat_toFixed2 (Num 0) = Num 0 \<longrightarrow>
            (\<forall>i j. i \<le> j \<and> j \<le> 3 * 12 \<longrightarrow>
               jle (total (graphData res ! i)) (total (graphData res ! j)))"
    by blast
  from m1[THEN spec, of 2, THEN spec, of 7] ij
  have a: "jle (total (graphData res ! 2)) (total (graphData res ! 7))" by (rule mp)
  from m0[THEN mp, OF z, THEN spec, of 0, THEN spec, of 7] oj
  have b: "jle (total (graphData res ! 0)) (total (graphData res ! 7))" by (rule mp)
  from res a b
  have "\<exists>res. calculateInvestment (params 0 120 3 3 ''moins-2000'') = Some res
         \<and> jle (total (graphData res ! 2)) (total (graphData res ! 7))
         \<and> jle (total (graphData res ! 0)) (total (graphData res ! 7))"
    by blast
  with validated_0_120_3_3 r z show ?thesis by (intro conjI) simp_all
qed

text \<open>
  The claim C7 as stated fails: with an initial capital of 0.004, no contribution, a
  rate of 3 and one year, the point 0 stores 0.004 and the point 1 stores the balance
  0.00401 rounded to two decimals, which is 0.00.
\<close>

lemma validated_0_004_0_3_1: "validated (1152921504606847 / 2 ^ 58) 0 3 1"
  using is_double_nat[of 0] is_double_nat[of 3] is_double_0_004 by (simp add: validated_def)

lemma total_rec_0_004_0_3_1:
  "total_rec (1152921504606847 / 2 ^ 58) 0 3 1 = Num (288950952092091 / 2 ^ 56)"
proof -
  have "jadd (Num (1152921504606847 / 2 ^ 58)) (Num 0) = Num (1152921504606847 / 2 ^ 58)"
    using is_double_0_004 by (simp add: is_double_def)
  moreover have "fl (1152921504606847 / 2 ^ 58 * (2257429313219461 / 2 ^ 51))
                   = Num (288950952092091 / 2 ^ 56)"
    by (rule fl_eval[where k = "- 8"]) (simp_all add: rne_def)
  ultimately show ?thesis
    by (simp only: One_nat_def total_rec.simps rate_3 jmul.simps)
qed

lemma stored_0_00401: "parseFloat_toFixed2 (Num (288950952092091 / 2 ^ 56)) = Num 0"
proof -
  have t: "toFixed2 (288950952092091 / 2 ^ 56) = 0"
    by (simp add: toFixed2_def)
  have s: "\<not> 10 ^ 21 \<le> \<bar>288950952092091 / 2 ^ 56 :: real\<bar>"
    by simp
  show ?thesis
    by (simp only: parseFloat_toFixed2.simps s if_False t fl_0)
qed

theorem series_nondecreasing_counterexample:
  "validated (1152921504606847 / 2 ^ 58) 0 3 1 \<and> (0::real) < 3
   \<and> (0::nat) \<le> 1 \<and> (1::nat) \<le> 1 * 12
   \<and> (\<exists>res. calculateInvestment (params (1152921504606847 / 2 ^ 58) 0 3 1 ''moins-2000'')
               = Some res
         \<and> total (graphData res ! 0) = Num (1152921504606847 / 2 ^ 58)
         \<and> total (graphData res ! 1) = Num 0
         \<and> \<not> jle (total (graphData res ! 0)) (total (graphData res ! 1)))"
proof -
  let ?d = "1152921504606847 / 2 ^ 58 :: real"
  from results_params[of 1 ?d 0 3 "''moins-2000''"]
  obtain res where res: "calculateInvestment (params ?d 0 3 1 ''moins-2000'') = Some res"
    "graphData res = \<lparr>mois = Num 0, total = Num ?d, investi = Num ?d\<rparr>
                  # map (\<lambda>j. \<lparr>mois = Num (real j),
                                total = parseFloat_toFixed2 (total_rec ?d 0 3 j),
                                investi = jadd (Num ?d) (jmul (Num 0) (Num (real j)))\<rparr>)
                        [Suc 0..<Suc (1 * 12)]"
    by auto
  note pt = total_point_params[OF res(2)]
  have p0: "total (graphData res ! 0) = Num ?d" by (rule pt(2))
  have "total (graphData res ! 1) = parseFloat_toFixed2 (total_rec ?d 0 3 1)"
    by (rule pt(1)) simp_all
  then have p1: "total (graphData res ! 1) = Num 0"
    by (simp only: total_rec_0_004_0_3_1 stored_0_00401)
  have ne: "\<not> jle (total (graphData res ! 0)) (total (graphData res ! 1))"
    unfolding p0 p1 by simp
  from res(1) p0 p1 ne
  have "\<exists>res. calculateInvestment (params ?d 0 3 1 ''moins-2000'') = Some res
         \<and> total (graphData res ! 0) = Num ?d
         \<and> total (graphData res ! 1) = Num 0
         \<and> \<not> jle (total (graphData res ! 0)) (total (graphData res ! 1))"
    by blast
  with validated_0_004_0_3_1 show ?thesis by (intro conjI) simp_all
qed

section \<open>Validation\<close>

text \<open>
  Claim C5 says that a value that is not a number is replaced by the nearest bound
  of its field, with a message. The code does not do so: on \<open>NaN\<close> both comparisons are
  false and \<^verbatim>\<open>Math.max\<close> and \<^verbatim>\<open>Math.min\<close> give \<open>NaN\<close>, so for each of the four fields
  the returned value is \<open>NaN\<close> and the field's message is removed.
\<close>

theorem validateInput_NaN:
  "validateInput errors ''sommeInitiale'' NaN
     = \<lparr>res_value = NaN, res_errors = errors(''sommeInitiale'' := None)\<rparr>
 \<and> validateInput errors ''mensualite'' NaN
     = \<lparr>res_value = NaN, res_errors = errors(''mensualite'' := None)\<rparr>
 \<and> validateInput errors ''tauxAnnuel'' NaN
     = \<lparr>res_value = NaN, res_errors = errors(''tauxAnnuel'' := None)\<rparr>
 \<and> validateInput errors ''nombreAnnees'' NaN
     = \<lparr>res_value = NaN, res_errors = errors(''nombreAnnees'' := None)\<rparr>"
  by (simp add: validateInput_def jgt_def)

text \<open>
  Claim C6. For every number \<open>v\<close>, the returned value is \<open>max(0, v)\<close> for
  \<^verbatim>\<open>sommeInitiale\<close> and \<^verbatim>\<open>mensualite\<close>, \<open>min(100, max(0, v))\<close> for \<^verbatim>\<open>tauxAnnuel\<close> and
  \<open>min(50, max(1, v))\<close> for \<^verbatim>\<open>nombreAnnees\<close>; it lies within the field's bounds; the
  returned errors hold a message for the field exactly when the clamping changed the
  value. The rate 150 gives 100, zero years give 1 and the capital -50 gives 0, each
  with a message that is not empty.
\<close>

theorem validateInput_clamps:
  "res_value (validateInput errors ''sommeInitiale'' (Num v)) = Num (max 0 v)
 \<and> (res_errors (validateInput errors ''sommeInitiale'' (Num v)) ''sommeInitiale'' \<noteq> None
      \<longleftrightarrow> max 0 v \<noteq> v)
 \<and> res_value (validateInput errors ''mensualite'' (Num v)) = Num (max 0 v)
 \<and> (res_errors (validateInput errors ''mensualite'' (Num v)) ''mensualite'' \<noteq> None
      \<longleftrightarrow> max 0 v \<noteq> v)
 \<and> res_value (validateInput errors ''tauxAnnuel'' (Num v)) = Num (min 100 (max 0 v))
 \<and> (res_errors (validateInput errors ''tauxAnnuel'' (Num v)) ''tauxAnnuel'' \<noteq> None
      \<longleftrightarrow> min 100 (max 0 v) \<noteq> v)
 \<and> res_value (validateInput errors ''nombreAnnees'' (Num v)) = Num (min 50 (max 1 v))
 \<and> (res_errors (validateInput errors ''nombreAnnees'' (Num v)) ''nombreAnnees'' \<noteq> None
      \<longleftrightarrow> min 50 (max 1 v) \<noteq> v)
 \<and> 0 \<le> max 0 v
 \<and> 0 \<le> min 100 (max 0 v) \<and> min 100 (max 0 v) \<le> 100
 \<and> 1 \<le> min 50 (max 1 v) \<and> min 50 (max 1 v) \<le> 50
 \<and> res_value (validateInput errors ''tauxAnnuel'' (Num 150)) = Num 100
 \<and> res_errors (validateInput errors ''tauxAnnuel'' (Num 150)) ''tauxAnnuel'' = Some msg_tauxAnnuel
 \<and> msg_tauxAnnuel \<noteq> []
 \<and> res_value (validateInput errors ''nombreAnnees'' (Num 0)) = Num 1
 \<and> res_errors (validateInput errors ''nombreAnnees'' (Num 0)) ''nombreAnnees'' = Some msg_nombreAnnees
 \<and> msg_nombreAnnees \<noteq> []
 \<and> res_value (validateInput errors ''sommeInitiale'' (Num (- 50))) = Num 0
 \<and> res_errors (validateInput errors ''sommeInitiale'' (Num (- 50))) ''sommeInitiale''
      = Some msg_sommeInitiale
 \<and> msg_sommeInitiale \<noteq> []"
proof -
  have si: "res_value (validateInput errors ''sommeInitiale'' (Num x)) = Num (max 0 x)"
    "res_errors (validateInput errors ''sommeInitiale'' (Num x)) ''sommeInitiale''
       = (if x < 0 then Some msg_sommeInitiale else None)" for x
    by (simp_all add: validateInput_def jgt_def)
  have me: "res_value (validateInput errors ''mensualite'' (Num x)) = Num (max 0 x)"
    "res_errors (validateInput errors ''mensualite'' (Num x)) ''mensualite''
       = (if x < 0 then Some msg_mensualite else None)" for x
    by (simp_all add: validateInput_def jgt_def)
  have ta: "res_value (validateInput errors ''tauxAnnuel'' (Num x)) = Num (min 100 (max 0 x))"
    "res_errors (validateInput errors ''tauxAnnuel'' (Num x)) ''tauxAnnuel''
       = (if x < 0 \<or> x > 100 then Some msg_tauxAnnuel else None)" for x
    by (simp_all add: validateInput_def jgt_def)
  have na: "res_value (validateInput errors ''nombreAnnees'' (Num x)) = Num (min 50 (max 1 x))"
    "res_errors (validateInput errors ''nombreAnnees'' (Num x)) ''nombreAnnees''
       = (if x < 1 \<or> x > 50 then Some msg_nombreAnnees else None)" for x
    by (simp_all add: validateInput_def jgt_def)
  have msgs: "msg_tauxAnnuel \<noteq> []" "msg_nombreAnnees \<noteq> []" "msg_sommeInitiale \<noteq> []"
    by (simp_all add: msg_tauxAnnuel_def msg_nombreAnnees_def msg_sommeInitiale_def)
  show ?thesis
    unfolding si me ta na using msgs by (auto simp: max_def min_def)
qed

theorem validateInput_clamps_witness:
  "res_value (validateInput Map.empty ''tauxAnnuel'' (Num 150)) = Num (min 100 (max 0 150))
 \<and> res_errors (validateInput Map.empty ''tauxAnnuel'' (Num 150)) ''tauxAnnuel'' \<noteq> None
 \<and> min 100 (max 0 150) \<noteq> (150::real)
 \<and> res_value (validateInput Map.empty ''tauxAnnuel'' (Num 42)) = Num 42
 \<and> res_errors (validateInput Map.empty ''tauxAnnuel'' (Num 42)) ''tauxAnnuel'' = None"
  using validateInput_clamps[of Map.empty 150] validateInput_clamps[of Map.empty 42]
  by simp

text \<open>
  Claim C10. The returned errors agree with the errors given on every key other than
  the validated field's name; for a name that is none of the four fields the errors
  are returned unchanged and the value is passed through.
\<close>

theorem validateInput_frame:
  "(\<forall>k. k \<noteq> name \<longrightarrow> res_errors (validateInput errors name v) k = errors k)
 \<and> (name \<notin> {''sommeInitiale'', ''mensualite'', ''tauxAnnuel'', ''nombreAnnees''} \<longrightarrow>
      validateInput errors name v = \<lparr>res_value = v, res_errors = errors\<rparr>)"
  by (simp add: validateInput_def)

theorem validateInput_frame_witness:
  "''mensualite'' \<noteq> ''tauxAnnuel''
 \<and> res_errors (validateInput [''mensualite'' \<mapsto> msg_mensualite] ''tauxAnnuel'' (Num 150)) ''mensualite''
      = Some msg_mensualite
 \<and> ''trancheRevenu'' \<notin> {''sommeInitiale'', ''mensualite'', ''tauxAnnuel'', ''nombreAnnees''}
 \<and> validateInput [''mensualite'' \<mapsto> msg_mensualite] ''trancheRevenu'' (Num 7)
      = \<lparr>res_value = Num 7, res_errors = [''mensualite'' \<mapsto> msg_mensualite]\<rparr>"
  using validateInput_frame[of "''tauxAnnuel''" "[''mensualite'' \<mapsto> msg_mensualite]" "Num 150"]
    validateInput_frame[of "''trancheRevenu''" "[''mensualite'' \<mapsto> msg_mensualite]" "Num 7"]
  by simp


section \<open>The recommendation\<close>

lemma Math_round_nearest: "\<bar>Math_round x - x\<bar> \<le> 1 / 2"
  unfolding Math_round_def by linarith

lemma calculateRecommendation_unknown:
  "trancheId \<notin> {''moins-2000'', ''2000-4000'', ''4000-6000'', ''6000-8000'', ''plus-8000''}
   \<Longrightarrow> calculateRecommendation trancheId = \<lparr>montantRecommande = 0, pourcentageRevenu = 0\<rparr>"
  by (auto simp add: calculateRecommendation_def TRANCHES_def)

text \<open>
  Claim C8. For an id that is none of the five ids of the table, the recommendation
  is the zero recommendation, and for validated parameters the simulation gives a
  complete result: the zero recommendation, the three amounts and the full series.
  The functions have no error value, and the loop ends: nothing is thrown.
\<close>

theorem unknown_bracket_zero_recommendation:
  assumes "trancheId \<notin> {''moins-2000'', ''2000-4000'', ''4000-6000'', ''6000-8000'', ''plus-8000''}"
    and "validated a c r y"
  shows "calculateRecommendation trancheId = \<lparr>montantRecommande = 0, pourcentageRevenu = 0\<rparr>
       \<and> (\<exists>res. calculateInvestment (params a c r y trancheId) = Some res
            \<and> recommandation res = \<lparr>montantRecommande = 0, pourcentageRevenu = 0\<rparr>
            \<and> montantTotal res = parseFloat_toFixed2 (total_rec a c r (y * 12))
            \<and> montantInvesti res = jadd (Num a) (jmul (Num c) (Num (real (y * 12))))
            \<and> gains res = parseFloat_toFixed2
                             (jsub (total_rec a c r (y * 12))
                                   (jadd (Num a) (jmul (Num c) (Num (real (y * 12))))))
            \<and> length (graphData res) = y * 12 + 1)"
proof -
  note z = calculateRecommendation_unknown[OF assms(1)]
  from results_params[OF validated_small[OF assms(2)], of a c r trancheId]
  obtain res where res: "calculateInvestment (params a c r y trancheId) = Some res"
    "montantTotal res = parseFloat_toFixed2 (total_rec a c r (y * 12))"
    "montantInvesti res = jadd (Num a) (jmul (Num c) (Num (real (y * 12))))"
    "gains res = parseFloat_toFixed2
                     (jsub (total_rec a c r (y * 12))
                           (jadd (Num a) (jmul (Num c) (Num (real (y * 12))))))"
    "graphData res = \<lparr>mois = Num 0, total = Num a, investi = Num a\<rparr>
                  # map (\<lambda>j. \<lparr>mois = Num (real j),
                                total = parseFloat_toFixed2 (total_rec a c r j),
                                investi = jadd (Num a) (jmul (Num c) (Num (real j)))\<rparr>)
                        [Suc 0..<Suc (y * 12)]"
    "recommandation res = calculateRecommendation trancheId"
    by blast
  have len: "length (graphData res) = y * 12 + 1"
    unfolding res(5) by (rule graph_length)
  have reco: "recommandation res = \<lparr>montantRecommande = 0, pourcentageRevenu = 0\<rparr>"
    unfolding res(6) by (rule z)
  from res(1) reco res(2,3,4) len
  have "\<exists>res. calculateInvestment (params a c r y trancheId) = Some res
            \<and> recommandation res = \<lparr>montantRecommande = 0, pourcentageRevenu = 0\<rparr>
            \<and> montantTotal res = parseFloat_toFixed2 (total_rec a c r (y * 12))
            \<and> montantInvesti res = jadd (Num a) (jmul (Num c) (Num (real (y * 12))))
            \<and> gains res = parseFloat_toFixed2
                             (jsub (total_rec a c r (y * 12))
                                   (jadd (Num a) (jmul (Num c) (Num (real (y * 12))))))
            \<and> length (graphData res) = y * 12 + 1"
    by (intro exI[of _ res] conjI)
  with z show ?thesis by (intro conjI)
qed

theorem unknown_bracket_zero_recommendation_witness:
  "''inconnue'' \<notin> {''moins-2000'', ''2000-4000'', ''4000-6000'', ''6000-8000'', ''plus-8000''}
   \<and> validated 0 120 3 3
   \<and> calculateRecommendation ''inconnue'' = \<lparr>montantRecommande = 0, pourcentageRevenu = 0\<rparr>
   \<and> (\<exists>res. calculateInvestment (params 0 120 3 3 ''inconnue'') = Some res
         \<and> recommandation res = \<lparr>montantRecommande = 0, pourcentageRevenu = 0\<rparr>
         \<and> length (graphData res) = 3 * 12 + 1)"
proof -
  have u: "''inconnue'' \<notin> {''moins-2000'', ''2000-4000'', ''4000-6000'', ''6000-8000'', ''plus-8000''}"
    by simp
  note t = unknown_bracket_zero_recommendation[OF u validated_0_120_3_3]
  from t[THEN conjunct2]
  obtain res where "calculateInvestment (params 0 120 3 3 ''inconnue'') = Some res"
    "recommandation res = \<lparr>montantRecommande = 0, pourcentageRevenu = 0\<rparr>"
    "length (graphData res) = 3 * 12 + 1"
    by (elim exE conjE)
  then have "\<exists>res. calculateInvestment (params 0 120 3 3 ''inconnue'') = Some res
         \<and> recommandation res = \<lparr>montantRecommande = 0, pourcentageRevenu = 0\<rparr>
         \<and> length (graphData res) = 3 * 12 + 1"
    by (intro exI[of _ res] conjI)
  with u validated_0_120_3_3 t[THEN conjunct1] show ?thesis by (intro conjI)
qed

lemma find_TRANCHES:
  "find (\<lambda>t. tranche_id t = ''moins-2000'') TRANCHES = Some (TRANCHES ! 0)"
  "find (\<lambda>t. tranche_id t = ''2000-4000'') TRANCHES = Some (TRANCHES ! 1)"
  "find (\<lambda>t. tranche_id t = ''4000-6000'') TRANCHES = Some (TRANCHES ! 2)"
  "find (\<lambda>t. tranche_id t = ''6000-8000'') TRANCHES = Some (TRANCHES ! 3)"
  "find (\<lambda>t. tranche_id t = ''plus-8000'') TRANCHES = Some (TRANCHES ! 4)"
  by (simp_all add: TRANCHES_def)

lemma TRANCHES_cases:
  assumes "tr \<in> set TRANCHES"
  shows "tr = TRANCHES ! 0 \<or> tr = TRANCHES ! 1 \<or> tr = TRANCHES ! 2 \<or> tr = TRANCHES ! 3
       \<or> tr = TRANCHES ! 4"
proof -
  have "length TRANCHES = 5" by (simp add: TRANCHES_def)
  with assms obtain i where "i < 5" "tr = TRANCHES ! i"
    by (metis in_set_conv_nth)
  moreover from \<open>i < 5\<close> have "i = 0 \<or> i = 1 \<or> i = 2 \<or> i = 3 \<or> i = 4" by arith
  ultimately show ?thesis by blast
qed

lemma TRANCHES_ids:
  "tranche_id (TRANCHES ! 0) = ''moins-2000''" "tranche_id (TRANCHES ! 1) = ''2000-4000''"
  "tranche_id (TRANCHES ! 2) = ''4000-6000''" "tranche_id (TRANCHES ! 3) = ''6000-8000''"
  "tranche_id (TRANCHES ! 4) = ''plus-8000''"
  by (simp_all add: TRANCHES_def)

lemma calculateRecommendation_known:
  assumes "tr \<in> set TRANCHES"
  shows "calculateRecommendation (tranche_id tr)
        = \<lparr>montantRecommande =
             Math_round ((tranche_min tr + tranche_max tr) / 2 * tauxEpargneRecommande tr),
           pourcentageRevenu = tauxEpargneRecommande tr * 100\<rparr>"
  using TRANCHES_cases[OF assms]
  by (elim disjE) (simp_all only: TRANCHES_ids calculateRecommendation_def find_TRANCHES
        option.case Let_def)

text \<open>
  Claim C9. For every entry of the table, the recommendation for its id has the
  amount \<open>Math.round(((min + max) / 2) * rate)\<close>, a whole number at most one half away
  from the unrounded product, and the percentage \<open>rate * 100\<close>. The table has the five
  ids in this order, and the id \<^verbatim>\<open>moins-2000\<close> gives the amount 50 and the percentage 5.
\<close>

theorem known_bracket_recommendation:
  "(\<forall>tr \<in> set TRANCHES.
      calculateRecommendation (tranche_id tr)
        = \<lparr>montantRecommande =
             Math_round ((tranche_min tr + tranche_max tr) / 2 * tauxEpargneRecommande tr),
           pourcentageRevenu = tauxEpargneRecommande tr * 100\<rparr>
      \<and> montantRecommande (calculateRecommendation (tranche_id tr)) \<in> \<int>
      \<and> \<bar>montantRecommande (calculateRecommendation (tranche_id tr))
          - (tranche_min tr + tranche_max tr) / 2 * tauxEpargneRecommande tr\<bar> \<le> 1 / 2)
 \<and> map tranche_id TRANCHES = [''moins-2000'', ''2000-4000'', ''4000-6000'', ''6000-8000'', ''plus-8000'']
 \<and> calculateRecommendation ''moins-2000'' = \<lparr>montantRecommande = 50, pourcentageRevenu = 5\<rparr>"
proof -
  have int: "montantRecommande (calculateRecommendation (tranche_id tr)) \<in> \<int>"
    if "tr \<in> set TRANCHES" for tr
    by (simp add: calculateRecommendation_known[OF that] Math_round_def)
  have near: "\<bar>montantRecommande (calculateRecommendation (tranche_id tr))
          - (tranche_min tr + tranche_max tr) / 2 * tauxEpargneRecommande tr\<bar> \<le> 1 / 2"
    if "tr \<in> set TRANCHES" for tr
    by (simp only: calculateRecommendation_known[OF that] recommandation_t.simps Math_round_nearest)
  have ids: "map tranche_id TRANCHES
      = [''moins-2000'', ''2000-4000'', ''4000-6000'', ''6000-8000'', ''plus-8000'']"
    by (simp add: TRANCHES_def)
  have "TRANCHES ! 0 = \<lparr>tranche_id = ''moins-2000'', tranche_label = ''Moins de 2000'' @ euro,
      tranche_min = 0, tranche_max = 2000, tauxEpargneRecommande = 5 / 100\<rparr>"
    by (simp add: TRANCHES_def)
  then have m: "calculateRecommendation ''moins-2000''
      = \<lparr>montantRecommande = 50, pourcentageRevenu = 5\<rparr>"
    by (simp add: calculateRecommendation_def find_TRANCHES(1) Math_round_def)
  from calculateRecommendation_known int near ids m show ?thesis by blast
qed

theorem known_bracket_recommendation_witness:
  "\<lparr>tranche_id = ''2000-4000'', tranche_label = ''Entre 2000'' @ euro @ '' et 4000'' @ euro,
      tranche_min = 2000, tranche_max = 4000, tauxEpargneRecommande = 10 / 100\<rparr> \<in> set TRANCHES
   \<and> calculateRecommendation ''2000-4000'' = \<lparr>montantRecommande = 300, pourcentageRevenu = 10\<rparr>"
proof -
  let ?tr = "\<lparr>tranche_id = ''2000-4000'', tranche_label = ''Entre 2000'' @ euro @ '' et 4000'' @ euro,
      tranche_min = 2000, tranche_max = 4000, tauxEpargneRecommande = 10 / 100\<rparr>"
  have mem: "?tr \<in> set TRANCHES" by (simp add: TRANCHES_def)
  from known_bracket_recommendation mem
  have "calculateRecommendation (tranche_id ?tr)
        = \<lparr>montantRecommande =
             Math_round ((tranche_min ?tr + tranche_max ?tr) / 2 * tauxEpargneRecommande ?tr),
           pourcentageRevenu = tauxEpargneRecommande ?tr * 100\<rparr>"
    by blast
  then have "calculateRecommendation ''2000-4000'' = \<lparr>montantRecommande = 300, pourcentageRevenu = 10\<rparr>"
    by (simp add: Math_round_def)
  with mem show ?thesis by blast
qed

end
